theory Spec2Isabelle
  imports Complex_Main "HOL-Library.Log_Nat"
begin

section \<open>JavaScript values\<close>

text \<open>
  The handlers of \<^verbatim>\<open>cloud-functions-index.js\<close> read untyped fields of request bodies and
  of stored documents, and test them for truthiness. A value is one of the JSON kinds; a
  number is an integer here (the counts and progress values of the handlers), and a field
  that is absent reads as \<open>JUndefined\<close>.
\<close>

datatype jsval =
    JUndefined
  | JNull
  | JBool bool
  | JNum int
  | JStr string
  | JObj "(string \<times> jsval) list"

text \<open>\<^verbatim>\<open>if (v)\<close>, \<^verbatim>\<open>!v\<close>: the falsy values are undefined, null, false, 0 and the empty string.\<close>

fun truthy :: "jsval \<Rightarrow> bool" where
  "truthy JUndefined = False"
| "truthy JNull = False"
| "truthy (JBool b) = b"
| "truthy (JNum n) = (n \<noteq> 0)"
| "truthy (JStr s) = (s \<noteq> [])"
| "truthy (JObj kvs) = True"

text \<open>\<^verbatim>\<open>a || b\<close>\<close>

definition js_or :: "jsval \<Rightarrow> jsval \<Rightarrow> jsval" where
  "js_or a b = (if truthy a then a else b)"

text \<open>
  \<^verbatim>\<open>a === b\<close> on two values read from different snapshots: primitives compare by type and
  value, two objects are never the same reference.
\<close>

fun strict_eq :: "jsval \<Rightarrow> jsval \<Rightarrow> bool" where
  "strict_eq (JObj xs) b = False"
| "strict_eq a (JObj ys) = False"
| "strict_eq a b = (a = b)"

text \<open>Property access on an object literal; a missing key reads as undefined.\<close>

definition get_prop :: "(string \<times> jsval) list \<Rightarrow> string \<Rightarrow> jsval" where
  "get_prop kvs k = (case map_of kvs k of None \<Rightarrow> JUndefined | Some v \<Rightarrow> v)"

subsection \<open>Numbers and values as text\<close>

definition digit_char :: "nat \<Rightarrow> char" where
  "digit_char d = ''0123456789'' ! (d mod 10)"

function string_of_nat :: "nat \<Rightarrow> string" where
  "string_of_nat n =
     (if n < 10 then [digit_char n] else string_of_nat (n div 10) @ [digit_char (n mod 10)])"
  by pat_completeness auto
termination
  by (relation "measure (\<lambda>n. n)") auto

declare string_of_nat.simps [simp del]

definition string_of_int :: "int \<Rightarrow> string" where
  "string_of_int i = (if i < 0 then CHR ''-'' # string_of_nat (nat (- i)) else string_of_nat (nat i))"

text \<open>
  The conversion a template literal \<^verbatim>\<open>`${v}`\<close> applies, for numbers of a magnitude below
  \<open>10\<^sup>2\<^sup>1\<close> (from there on the host writes an exponent) and for objects that have no
  \<open>toString\<close> or \<open>valueOf\<close> key of their own.
\<close>

fun toString :: "jsval \<Rightarrow> string" where
  "toString JUndefined = ''undefined''"
| "toString JNull = ''null''"
| "toString (JBool b) = (if b then ''true'' else ''false'')"
| "toString (JNum n) = string_of_int n"
| "toString (JStr s) = s"
| "toString (JObj kvs) = ''[object Object]''"

text \<open>
  The method call \<^verbatim>\<open>v.toString()\<close>: on undefined and null it throws a TypeError, whose
  message is the \<open>Inl\<close>. An object of a parsed body that has a key \<open>toString\<close> of its own
  hides the inherited method behind a value that cannot be called, and the call throws too.
\<close>

fun call_toString :: "jsval \<Rightarrow> string + string" where
  "call_toString JUndefined = Inl ''Cannot read properties of undefined (reading 'toString')''"
| "call_toString JNull = Inl ''Cannot read properties of null (reading 'toString')''"
| "call_toString (JObj kvs) =
     (case map_of kvs ''toString'' of
        None \<Rightarrow> Inr ''[object Object]''
      | Some v \<Rightarrow> Inl ''progress.toString is not a function'')"
| "call_toString v = Inr (toString v)"

section \<open>Collaborators: document store, push gateway, clock\<close>

text \<open>
  A document of the collection \<^verbatim>\<open>notification_tokens\<close>. Every document of a query snapshot
  exists, so \<^verbatim>\<open>doc.exists\<close> is true of each document the handlers iterate over. The
  timestamp is in milliseconds; \<open>None\<close> is a document without a timestamp field, which no
  range filter on that field matches.
\<close>

record token_doc =
  doc_id :: string
  token :: jsval
  registeredAt :: "int option"

text \<open>
  A document of \<^verbatim>\<open>notification_logs\<close>, as \<^verbatim>\<open>notifyOnAppUpdate\<close> writes it; a count that is
  absent is \<open>None\<close>.
\<close>

record log_doc =
  log_appId :: jsval
  log_appName :: jsval
  log_type :: string
  log_version :: jsval
  sentCount :: "nat option"
  log_failureCount :: "nat option"
  log_timestamp :: "int option"

text \<open>
  One entry of \<^verbatim>\<open>BatchResponse.responses\<close>. The provider's error codes are grouped as the
  specification groups them: a handle that is unregistered or malformed, a fault on the
  provider's side, and an exceeded rate.
\<close>

datatype errorKind = InvalidHandle | TransientFailure | QuotaExceeded

datatype send_response = Delivered | Failed errorKind

fun success :: "send_response \<Rightarrow> bool" where
  "success Delivered = True"
| "success (Failed k) = False"

text \<open>
  The \<^verbatim>\<open>BatchResponse\<close> of \<^verbatim>\<open>sendMulticast\<close>: the Admin SDK counts the entries of
  \<open>responses\<close> into \<open>successCount\<close> and \<open>failureCount\<close>.
\<close>

record batch_response =
  responses :: "send_response list"
  successCount :: nat
  failureCount :: nat

definition batch_of :: "send_response list \<Rightarrow> batch_response" where
  "batch_of rs =
     \<lparr> responses = rs,
       successCount = length (filter success rs),
       failureCount = length (filter (\<lambda>r. \<not> success r) rs) \<rparr>"

text \<open>What a handler does to the outside, in the order it does it.\<close>

datatype event =
    ConsoleLog string
  | ConsoleError string string
  | TokensGet
  | TokensWhereToken jsval
  | TokensWhereOlder int
  | DocDelete string
  | DeleteRejected string
  | BatchCommit "string list"
  | LogsWhereNewer int
  | LogsAdd log_doc
  | SendMulticast "jsval list" jsval
  | Send jsval

fun is_gateway_call :: "event \<Rightarrow> bool" where
  "is_gateway_call (SendMulticast ts m) = True"
| "is_gateway_call (Send m) = True"
| "is_gateway_call e = False"

fun is_log_add :: "event \<Rightarrow> bool" where
  "is_log_add (LogsAdd l) = True"
| "is_log_add e = False"

text \<open>The two collections and the record of what has been done so far.\<close>

record world =
  notification_tokens :: "token_doc list"
  notification_logs :: "log_doc list"
  trace :: "event list"

text \<open>
  How the collaborators answer during one invocation. A store call that rejects carries
  the message of its error.
\<close>

record env =
  now :: int
  nowISO :: string
  tokens_get_fault :: "string option"
  token_query_fault :: "jsval \<Rightarrow> string option"
  doc_delete_fault :: "string \<Rightarrow> bool"
  expired_query_fault :: "string option"
  batch_commit_fault :: "string option"
  logs_query_fault :: "string option"
  logs_add_fault :: "string option"
  sendMulticast :: "jsval list \<Rightarrow> jsval \<Rightarrow> string + send_response list"
  send :: "jsval \<Rightarrow> string option"

definition emit :: "event \<Rightarrow> world \<Rightarrow> world" where
  "emit e w = w\<lparr> trace := trace w @ [e] \<rparr>"

text \<open>\<^verbatim>\<open>await db.collection('notification_tokens').get()\<close>\<close>

definition tokens_get :: "env \<Rightarrow> world \<Rightarrow> (string + token_doc list) \<times> world" where
  "tokens_get env w =
     (case tokens_get_fault env of
        Some msg \<Rightarrow> (Inl msg, emit TokensGet w)
      | None \<Rightarrow> (Inr (notification_tokens w), emit TokensGet w))"

text \<open>
  \<^verbatim>\<open>tokensSnapshot.forEach(doc => { const token = doc.data().token; if (token) tokens.push(token); })\<close>
\<close>

fun collect_tokens :: "token_doc list \<Rightarrow> jsval list" where
  "collect_tokens [] = []"
| "collect_tokens (d # ds) = (if truthy (token d) then token d # collect_tokens ds else collect_tokens ds)"

text \<open>\<^verbatim>\<open>await messaging.sendMulticast({ tokens: tokens, ...message })\<close>\<close>

definition messaging_sendMulticast ::
  "env \<Rightarrow> jsval list \<Rightarrow> jsval \<Rightarrow> world \<Rightarrow> (string + batch_response) \<times> world" where
  "messaging_sendMulticast env tokens message w =
     (case sendMulticast env tokens message of
        Inl msg \<Rightarrow> (Inl msg, emit (SendMulticast tokens message) w)
      | Inr rs \<Rightarrow> (Inr (batch_of rs), emit (SendMulticast tokens message) w))"

section \<open>HTTP requests and responses\<close>

text \<open>
  The body of a request is the object the platform's parser produced (an empty object when
  the request carries none).
\<close>

record request =
  req_method :: string
  req_body :: "(string \<times> jsval) list"

record response =
  res_status :: nat
  res_json :: "(string \<times> jsval) list"

text \<open>
  The \<^verbatim>\<open>catch\<close> block of the HTTP handlers:
  \<^verbatim>\<open>console.error(label, error); res.status(500).json({ success: false, error: error.message })\<close>
\<close>

definition fail500 :: "string \<Rightarrow> string \<Rightarrow> world \<Rightarrow> response \<times> world" where
  "fail500 label msg w =
     (\<lparr> res_status = 500, res_json = [(''success'', JBool False), (''error'', JStr msg)] \<rparr>,
      emit (ConsoleError label msg) w)"

text \<open>
  Every HTTP function is exported as \<^verbatim>\<open>functions.https.onRequest((req, res) => cors(req, res, callback))\<close>
  with \<^verbatim>\<open>cors = require('cors')({ origin: true })\<close>. The middleware answers a preflight
  (method \<open>OPTIONS\<close>) itself, with status 204 and no body, and does not run the callback; it
  passes every other request on. The definitions \<open>sendNotification\<close>,
  \<open>sendDownloadProgress\<close> and \<open>getNotificationStats\<close> below are the callbacks, and
  \<open>onRequest\<close> of a callback is the exported function.
\<close>

definition cors ::
  "(env \<Rightarrow> request \<Rightarrow> world \<Rightarrow> response \<times> world) \<Rightarrow> env \<Rightarrow> request \<Rightarrow> world \<Rightarrow> response \<times> world" where
  "cors callback env req w =
     (if req_method req = ''OPTIONS'' then (\<lparr> res_status = 204, res_json = [] \<rparr>, w)
      else callback env req w)"

definition onRequest ::
  "(env \<Rightarrow> request \<Rightarrow> world \<Rightarrow> response \<times> world) \<Rightarrow> env \<Rightarrow> request \<Rightarrow> world \<Rightarrow> response \<times> world" where
  "onRequest callback env req w = cors callback env req w"

section \<open>sendNotification\<close>

definition default_icon :: string where
  "default_icon = ''https://i.ibb.co.com/hJCt1BMP/Picsart-26-01-03-19-21-09-763.png''"

text \<open>The message object built from the request body (``Prepare notification message'').\<close>

definition notification_message :: "env \<Rightarrow> (string \<times> jsval) list \<Rightarrow> jsval" where
  "notification_message env b =
     (let appId = get_prop b ''appId''; appName = get_prop b ''appName'';
          type = get_prop b ''type''; title = get_prop b ''title''; body = get_prop b ''body'';
          icon = get_prop b ''icon''; downloadUrl = get_prop b ''downloadUrl''
      in JObj
        [(''notification'', JObj
            [(''title'', js_or title appName),
             (''body'', js_or body (JStr (''Update available for '' @ toString appName))),
             (''icon'', js_or icon (JStr default_icon))]),
         (''data'', JObj
            [(''appId'', appId),
             (''appName'', appName),
             (''type'', type),
             (''downloadUrl'', js_or downloadUrl (JStr [])),
             (''timestamp'', JStr (nowISO env))]),
         (''android'', JObj
            [(''priority'', JStr ''high''),
             (''notification'', JObj
                [(''sound'', JStr ''default''),
                 (''defaultSound'', JBool True),
                 (''clickAction'', JStr ''FLUTTER_NOTIFICATION_CLICK'')])]),
         (''webpush'', JObj
            [(''fcmOptions'', JObj [(''link'', JStr ''/'')]),
             (''notification'', JObj
                [(''icon'', js_or icon (JStr default_icon)),
                 (''badge'', JStr default_icon)])])])"

text \<open>\<^verbatim>\<open>tokens[idx]\<close>: reading past the end of an array gives undefined.\<close>

definition at_index :: "jsval list \<Rightarrow> nat \<Rightarrow> jsval" where
  "at_index xs i = (if i < length xs then xs ! i else JUndefined)"

text \<open>
  \<^verbatim>\<open>response.responses.map((resp, idx) => resp.success ? null : tokens[idx]).filter(token => token)\<close>
\<close>

definition failedTokens :: "batch_response \<Rightarrow> jsval list \<Rightarrow> jsval list" where
  "failedTokens response tokens =
     filter truthy
       (map (\<lambda>(resp, idx). if success resp then JNull else at_index tokens idx)
          (zip (responses response) [0..<length (responses response)]))"

text \<open>\<^verbatim>\<open>db.collection('notification_tokens').where('token', '==', token).get()\<close>\<close>

definition tokens_where_token ::
  "env \<Rightarrow> jsval \<Rightarrow> world \<Rightarrow> (string + token_doc list) \<times> world" where
  "tokens_where_token env t w =
     (case token_query_fault env t of
        Some msg \<Rightarrow> (Inl msg, emit (TokensWhereToken t) w)
      | None \<Rightarrow> (Inr (filter (\<lambda>d. token d = t) (notification_tokens w)), emit (TokensWhereToken t) w))"

text \<open>
  \<^verbatim>\<open>doc.ref.delete()\<close>. The promise is neither awaited nor returned: when the delete is
  rejected nothing in the handler sees it, and the document stays. The model applies a
  delete at the point where it is issued, so the state it reaches is the store once the
  outstanding deletes have settled.
\<close>

definition doc_ref_delete :: "env \<Rightarrow> token_doc \<Rightarrow> world \<Rightarrow> world" where
  "doc_ref_delete env d w =
     (if doc_delete_fault env (doc_id d) then emit (DeleteRejected (doc_id d)) w
      else emit (DocDelete (doc_id d))
             (w\<lparr> notification_tokens := filter (\<lambda>x. doc_id x \<noteq> doc_id d) (notification_tokens w) \<rparr>))"

text \<open>\<^verbatim>\<open>snapshot.forEach(doc => doc.ref.delete())\<close>\<close>

fun snapshot_delete_all :: "env \<Rightarrow> token_doc list \<Rightarrow> world \<Rightarrow> world" where
  "snapshot_delete_all env [] w = w"
| "snapshot_delete_all env (d # ds) w = snapshot_delete_all env ds (doc_ref_delete env d w)"

text \<open>
  \<^verbatim>\<open>for (const token of failedTokens) { await db...where('token', '==', token).get().then(...) }\<close>:
  a query that rejects makes the \<^verbatim>\<open>await\<close> throw, which leaves the loop.
\<close>

fun cleanup_failed :: "env \<Rightarrow> jsval list \<Rightarrow> world \<Rightarrow> (string + unit) \<times> world" where
  "cleanup_failed env [] w = (Inr (), w)"
| "cleanup_failed env (t # ts) w =
     (case tokens_where_token env t w of
        (Inl msg, w1) \<Rightarrow> (Inl msg, w1)
      | (Inr snapshot, w1) \<Rightarrow> cleanup_failed env ts (snapshot_delete_all env snapshot w1))"

text \<open>
  The block ``Clean up failed tokens'':
  \<^verbatim>\<open>if (response.failureCount > 0) { const failedTokens = ...; for (const token of failedTokens) ... }\<close>
\<close>

definition reconcile :: "env \<Rightarrow> batch_response \<Rightarrow> jsval list \<Rightarrow> world \<Rightarrow> (string + unit) \<times> world" where
  "reconcile env response tokens w =
     (if failureCount response > 0 then cleanup_failed env (failedTokens response tokens) w
      else (Inr (), w))"

definition sendNotification :: "env \<Rightarrow> request \<Rightarrow> world \<Rightarrow> response \<times> world" where
  "sendNotification env req w =
     (if req_method req \<noteq> ''POST'' then
        (\<lparr> res_status = 405, res_json = [(''error'', JStr ''Method not allowed'')] \<rparr>, w)
      else if \<not> truthy (get_prop (req_body req) ''appId'') \<or> \<not> truthy (get_prop (req_body req) ''type'') then
        (\<lparr> res_status = 400, res_json = [(''error'', JStr ''Missing required fields: appId, type'')] \<rparr>, w)
      else
        (case tokens_get env w of
           (Inl msg, w1) \<Rightarrow> fail500 ''Error sending notification:'' msg w1
         | (Inr tokensSnapshot, w1) \<Rightarrow>
             (let tokens = collect_tokens tokensSnapshot in
              if length tokens = 0 then
                (\<lparr> res_status = 404, res_json = [(''error'', JStr ''No notification tokens found'')] \<rparr>, w1)
              else
                (case messaging_sendMulticast env tokens (notification_message env (req_body req)) w1 of
                   (Inl msg, w2) \<Rightarrow> fail500 ''Error sending notification:'' msg w2
                 | (Inr response, w2) \<Rightarrow>
                     (let w3 = emit (ConsoleLog (''Notification sent - Success: ''
                                  @ string_of_nat (successCount response) @ '', Failed: ''
                                  @ string_of_nat (failureCount response))) w2
                      in case reconcile env response tokens w3 of
                           (Inl msg, w4) \<Rightarrow> fail500 ''Error sending notification:'' msg w4
                         | (Inr u, w4) \<Rightarrow>
                             (\<lparr> res_status = 200,
                                res_json =
                                  [(''success'', JBool True),
                                   (''successCount'', JNum (int (successCount response))),
                                   (''failureCount'', JNum (int (failureCount response))),
                                   (''totalSent'', JNum (int (length tokens))),
                                   (''message'', JStr (''Notification sent to ''
                                       @ string_of_nat (successCount response) @ '' devices''))] \<rparr>,
                              w4))))))"

section \<open>sendDownloadProgress\<close>

text \<open>\<^verbatim>\<open>await messaging.send(message)\<close>\<close>

definition messaging_send :: "env \<Rightarrow> jsval \<Rightarrow> world \<Rightarrow> (string + unit) \<times> world" where
  "messaging_send env message w =
     (case send env message of
        Some msg \<Rightarrow> (Inl msg, emit (Send message) w)
      | None \<Rightarrow> (Inr (), emit (Send message) w))"

definition progress_data :: "env \<Rightarrow> jsval \<Rightarrow> jsval \<Rightarrow> string \<Rightarrow> jsval" where
  "progress_data env appId appName p =
     JObj [(''type'', JStr ''DOWNLOAD_PROGRESS''),
           (''appId'', appId),
           (''appName'', appName),
           (''progress'', JStr p),
           (''timestamp'', JStr (nowISO env))]"

definition sendDownloadProgress :: "env \<Rightarrow> request \<Rightarrow> world \<Rightarrow> response \<times> world" where
  "sendDownloadProgress env req w =
     (let appId = get_prop (req_body req) ''appId''; appName = get_prop (req_body req) ''appName'';
          progress = get_prop (req_body req) ''progress'';
          deviceToken = get_prop (req_body req) ''deviceToken''
      in
      if \<not> truthy appId \<or> progress = JUndefined then
        (\<lparr> res_status = 400, res_json = [(''error'', JStr ''Missing required fields'')] \<rparr>, w)
      else if truthy deviceToken then
        (case call_toString progress of
           Inl msg \<Rightarrow> fail500 ''Error sending progress:'' msg w
         | Inr p \<Rightarrow>
             (case messaging_send env
                     (JObj [(''token'', deviceToken),
                            (''data'', progress_data env appId appName p),
                            (''android'', JObj [(''priority'', JStr ''high'')])]) w of
                (Inl msg, w1) \<Rightarrow> fail500 ''Error sending progress:'' msg w1
              | (Inr u, w1) \<Rightarrow>
                  (\<lparr> res_status = 200,
                     res_json = [(''success'', JBool True),
                                 (''message'', JStr ''Progress notification sent'')] \<rparr>, w1)))
      else
        (case tokens_get env w of
           (Inl msg, w1) \<Rightarrow> fail500 ''Error sending progress:'' msg w1
         | (Inr tokensSnapshot, w1) \<Rightarrow>
             (let tokens = collect_tokens tokensSnapshot in
              if length tokens = 0 then
                (\<lparr> res_status = 404, res_json = [(''error'', JStr ''No devices found'')] \<rparr>, w1)
              else
                (case call_toString progress of
                   Inl msg \<Rightarrow> fail500 ''Error sending progress:'' msg w1
                 | Inr p \<Rightarrow>
                     (case messaging_sendMulticast env tokens
                             (JObj [(''data'', progress_data env appId appName p)]) w1 of
                        (Inl msg, w2) \<Rightarrow> fail500 ''Error sending progress:'' msg w2
                      | (Inr response, w2) \<Rightarrow>
                          (\<lparr> res_status = 200,
                             res_json = [(''success'', JBool True),
                                         (''successCount'', JNum (int (successCount response))),
                                         (''failureCount'', JNum (int (failureCount response)))] \<rparr>,
                           w2))))))"

section \<open>notifyOnAppUpdate\<close>

text \<open>The update event of a document of \<^verbatim>\<open>apps\<close>: its data before and after.\<close>

record change =
  change_before :: "(string \<times> jsval) list"
  change_after :: "(string \<times> jsval) list"

text \<open>
  The \<^verbatim>\<open>catch\<close> block of the trigger and of the scheduled job:
  \<^verbatim>\<open>console.error(label, error); throw error\<close>
\<close>

definition rethrow :: "string \<Rightarrow> string \<Rightarrow> world \<Rightarrow> (string + 'a) \<times> world" where
  "rethrow label msg w = (Inl msg, emit (ConsoleError label msg) w)"

text \<open>\<^verbatim>\<open>await db.collection('notification_logs').add(entry)\<close>\<close>

definition logs_add :: "env \<Rightarrow> log_doc \<Rightarrow> world \<Rightarrow> (string + unit) \<times> world" where
  "logs_add env entry w =
     (case logs_add_fault env of
        Some msg \<Rightarrow> (Inl msg, emit (LogsAdd entry) w)
      | None \<Rightarrow>
          (Inr (), emit (LogsAdd entry) (w\<lparr> notification_logs := notification_logs w @ [entry] \<rparr>)))"

definition update_message :: "env \<Rightarrow> string \<Rightarrow> (string \<times> jsval) list \<Rightarrow> jsval" where
  "update_message env appId newData =
     JObj
       [(''notification'', JObj
           [(''title'', JStr (toString (get_prop newData ''name'') @ '' Updated'')),
            (''body'', JStr (''Version '' @ toString (get_prop newData ''version'') @ '' is now available'')),
            (''icon'', JStr default_icon)]),
        (''data'', JObj
           [(''type'', JStr ''APP_DOWNLOAD_AVAILABLE''),
            (''appId'', JStr appId),
            (''appName'', get_prop newData ''name''),
            (''appIcon'', js_or (get_prop newData ''icon'') (JStr [])),
            (''version'', get_prop newData ''version''),
            (''timestamp'', JStr (nowISO env))]),
        (''android'', JObj
           [(''priority'', JStr ''high''),
            (''notification'', JObj
               [(''sound'', JStr ''default''), (''defaultSound'', JBool True)])])]"

text \<open>
  The result is \<open>Inl\<close> when the trigger throws, \<open>Inr None\<close> when it returns nothing and
  \<open>Inr (Some response)\<close> when it returns the batch response.
\<close>

definition notifyOnAppUpdate ::
  "env \<Rightarrow> change \<Rightarrow> string \<Rightarrow> world \<Rightarrow> (string + batch_response option) \<times> world" where
  "notifyOnAppUpdate env chg appId w =
     (let newData = change_after chg; oldData = change_before chg in
      if strict_eq (get_prop oldData ''version'') (get_prop newData ''version'') then (Inr None, w)
      else
        (let w0 = emit (ConsoleLog (''App '' @ appId @ '' updated from ''
                     @ toString (get_prop oldData ''version'') @ '' to ''
                     @ toString (get_prop newData ''version''))) w
         in case tokens_get env w0 of
              (Inl msg, w1) \<Rightarrow> rethrow ''Error notifying on app update:'' msg w1
            | (Inr tokensSnapshot, w1) \<Rightarrow>
                (let tokens = collect_tokens tokensSnapshot in
                 if length tokens = 0 then (Inr None, emit (ConsoleLog ''No tokens to notify'') w1)
                 else
                   (case messaging_sendMulticast env tokens (update_message env appId newData) w1 of
                      (Inl msg, w2) \<Rightarrow> rethrow ''Error notifying on app update:'' msg w2
                    | (Inr response, w2) \<Rightarrow>
                        (let w3 = emit (ConsoleLog (''Update notification sent - Success: ''
                                     @ string_of_nat (successCount response) @ '', Failed: ''
                                     @ string_of_nat (failureCount response))) w2
                         in case logs_add env
                                   \<lparr> log_appId = JStr appId,
                                     log_appName = get_prop newData ''name'',
                                     log_type = ''UPDATE'',
                                     log_version = get_prop newData ''version'',
                                     sentCount = Some (successCount response),
                                     log_failureCount = Some (failureCount response),
                                     log_timestamp = Some (now env) \<rparr> w3 of
                              (Inl msg, w4) \<Rightarrow> rethrow ''Error notifying on app update:'' msg w4
                            | (Inr u, w4) \<Rightarrow> (Inr (Some response), w4))))))"

section \<open>cleanupTokens\<close>

text \<open>
  \<^verbatim>\<open>db.collection('notification_tokens').where('timestamp', '<', ninetyDaysAgo).get()\<close>
\<close>

definition older_than :: "int \<Rightarrow> token_doc \<Rightarrow> bool" where
  "older_than cutoff d = (case registeredAt d of None \<Rightarrow> False | Some t \<Rightarrow> t < cutoff)"

definition tokens_where_older ::
  "env \<Rightarrow> int \<Rightarrow> world \<Rightarrow> (string + token_doc list) \<times> world" where
  "tokens_where_older env cutoff w =
     (case expired_query_fault env of
        Some msg \<Rightarrow> (Inl msg, emit (TokensWhereOlder cutoff) w)
      | None \<Rightarrow> (Inr (filter (older_than cutoff) (notification_tokens w)),
                 emit (TokensWhereOlder cutoff) w))"

text \<open>
  \<^verbatim>\<open>snapshot.forEach(doc => { batch.delete(doc.ref); deletedCount++; })\<close>: the batch and
  the counter are the accumulator.
\<close>

fun batch_all :: "token_doc list \<Rightarrow> string list \<times> nat \<Rightarrow> string list \<times> nat" where
  "batch_all [] acc = acc"
| "batch_all (d # ds) (batch, deletedCount) = batch_all ds (batch @ [doc_id d], deletedCount + 1)"

text \<open>\<^verbatim>\<open>await batch.commit()\<close>: all the deletes of the batch, or none.\<close>

definition batch_commit :: "env \<Rightarrow> string list \<Rightarrow> world \<Rightarrow> (string + unit) \<times> world" where
  "batch_commit env batch w =
     (case batch_commit_fault env of
        Some msg \<Rightarrow> (Inl msg, emit (BatchCommit batch) w)
      | None \<Rightarrow>
          (Inr (), emit (BatchCommit batch)
             (w\<lparr> notification_tokens := filter (\<lambda>d. doc_id d \<notin> set batch) (notification_tokens w) \<rparr>)))"

record cleanup_result =
  cr_message :: string
  cr_timestamp :: int

definition ninety_days_ms :: int where
  "ninety_days_ms = 90 * 24 * 60 * 60 * 1000"

definition cleanupTokens :: "env \<Rightarrow> world \<Rightarrow> (string + cleanup_result) \<times> world" where
  "cleanupTokens env w =
     (let w0 = emit (ConsoleLog ''Starting token cleanup...'') w;
          ninetyDaysAgo = now env - ninety_days_ms
      in case tokens_where_older env ninetyDaysAgo w0 of
           (Inl msg, w1) \<Rightarrow> rethrow ''Error cleaning up tokens:'' msg w1
         | (Inr snapshot, w1) \<Rightarrow>
             (case batch_all snapshot ([], 0) of
                (batch, deletedCount) \<Rightarrow>
                  (case batch_commit env batch w1 of
                     (Inl msg, w2) \<Rightarrow> rethrow ''Error cleaning up tokens:'' msg w2
                   | (Inr u, w2) \<Rightarrow>
                       (Inr \<lparr> cr_message = ''Cleaned up '' @ string_of_nat deletedCount @ '' tokens'',
                              cr_timestamp = now env \<rparr>,
                        emit (ConsoleLog (''Cleaned up '' @ string_of_nat deletedCount
                                @ '' expired tokens'')) w2))))"

section \<open>getNotificationStats\<close>

text \<open>
  \<^verbatim>\<open>db.collection('notification_logs').where('timestamp', '>', thirtyDaysAgo).get()\<close>
\<close>

definition newer_than :: "int \<Rightarrow> log_doc \<Rightarrow> bool" where
  "newer_than cutoff l = (case log_timestamp l of None \<Rightarrow> False | Some t \<Rightarrow> t > cutoff)"

definition logs_where_newer :: "env \<Rightarrow> int \<Rightarrow> world \<Rightarrow> (string + log_doc list) \<times> world" where
  "logs_where_newer env cutoff w =
     (case logs_query_fault env of
        Some msg \<Rightarrow> (Inl msg, emit (LogsWhereNewer cutoff) w)
      | None \<Rightarrow> (Inr (filter (newer_than cutoff) (notification_logs w)),
                 emit (LogsWhereNewer cutoff) w))"

subsection \<open>The numbers of the host\<close>

text \<open>
  The totals of the statistics are JavaScript numbers, that is IEEE 754 doubles. They are
  sums, quotients and products of counts, so none is negative: a value is a finite
  nonnegative rational that a double can hold, or infinity, or NaN.
\<close>

datatype double = Finite rat | Infinity | NaN

text \<open>The nearest integer, the even one of the two when \<open>y\<close> lies halfway.\<close>

definition round_even :: "rat \<Rightarrow> int" where
  "round_even y =
     (let f = \<lfloor>y\<rfloor>; r = y - of_int f
      in if r < 1 / 2 then f else if 1 / 2 < r then f + 1 else if even f then f else f + 1)"

text \<open>The exponent \<open>b\<close> with \<open>2\<^sup>b \<le> x < 2\<^sup>b\<^sup>+\<^sup>1\<close>, for a positive \<open>x\<close>.\<close>

definition binade :: "rat \<Rightarrow> int" where
  "binade x =
     (case quotient_of x of
        (p, q) \<Rightarrow> (let d = bitlen p - bitlen q in if 2 powi d \<le> x then d else d - 1))"

definition overflow_threshold :: rat where
  "overflow_threshold = 2 ^ 1024"

text \<open>
  The double nearest to a nonnegative exact value (round to nearest, ties to even): 53
  significant bits, a spacing of \<open>2\<^sup>-\<^sup>1\<^sup>0\<^sup>7\<^sup>4\<close> below the normal range, and infinity when
  the rounded value reaches \<open>2\<^sup>1\<^sup>0\<^sup>2\<^sup>4\<close>. Every arithmetic operation of the host returns the
  exact result rounded this way.
\<close>

definition to_double :: "rat \<Rightarrow> double" where
  "to_double x =
     (if x = 0 then Finite 0
      else (let e = max (binade x) (- 1022) - 52;
                v = of_int (round_even (x / 2 powi e)) * 2 powi e
            in if overflow_threshold \<le> v then Infinity else Finite v))"

text \<open>\<^verbatim>\<open>a + b\<close>\<close>

fun dadd :: "double \<Rightarrow> double \<Rightarrow> double" where
  "dadd (Finite a) (Finite b) = to_double (a + b)"
| "dadd NaN b = NaN"
| "dadd a NaN = NaN"
| "dadd Infinity b = Infinity"
| "dadd a Infinity = Infinity"

text \<open>\<^verbatim>\<open>a / b\<close>\<close>

fun ddiv :: "double \<Rightarrow> double \<Rightarrow> double" where
  "ddiv (Finite a) (Finite b) =
     (if b = 0 then (if a = 0 then NaN else Infinity) else to_double (a / b))"
| "ddiv NaN b = NaN"
| "ddiv a NaN = NaN"
| "ddiv Infinity Infinity = NaN"
| "ddiv Infinity (Finite b) = Infinity"
| "ddiv (Finite a) Infinity = Finite 0"

text \<open>\<^verbatim>\<open>a * b\<close>\<close>

fun dmul :: "double \<Rightarrow> double \<Rightarrow> double" where
  "dmul (Finite a) (Finite b) = to_double (a * b)"
| "dmul NaN b = NaN"
| "dmul a NaN = NaN"
| "dmul Infinity Infinity = Infinity"
| "dmul Infinity (Finite b) = (if b = 0 then NaN else Infinity)"
| "dmul (Finite a) Infinity = (if a = 0 then NaN else Infinity)"

text \<open>\<^verbatim>\<open>a > 0\<close>\<close>

fun dpos :: "double \<Rightarrow> bool" where
  "dpos (Finite a) = (0 < a)"
| "dpos Infinity = True"
| "dpos NaN = False"

definition two_digits :: "nat \<Rightarrow> string" where
  "two_digits n = [digit_char (n div 10 mod 10), digit_char (n mod 10)]"

text \<open>
  \<^verbatim>\<open>x.toFixed(2)\<close>: for a finite \<open>x\<close> below \<open>10\<^sup>2\<^sup>1\<close>, the integer \<open>n\<close> for which \<open>n / 100\<close>
  is nearest to the exact value of \<open>x\<close> (the larger one of two), written with a point before
  its last two digits. The handler calls it on a quotient times 100, which stays far below
  \<open>10\<^sup>2\<^sup>1\<close> (lemma \<open>rate_argument_small\<close>), where the host would switch to an exponent.
\<close>

fun toFixed2 :: "double \<Rightarrow> string" where
  "toFixed2 NaN = ''NaN''"
| "toFixed2 Infinity = ''Infinity''"
| "toFixed2 (Finite x) =
     (let n = nat \<lfloor>x * 100 + 1 / 2\<rfloor> in string_of_nat (n div 100) @ ''.'' @ two_digits n)"

text \<open>
  \<^verbatim>\<open>res.json\<close> writes a number with \<^verbatim>\<open>JSON.stringify\<close>: a finite number as it is (the totals
  are whole numbers), infinity and NaN as \<open>null\<close>.
\<close>

fun json_number :: "double \<Rightarrow> jsval" where
  "json_number (Finite x) = JNum \<lfloor>x\<rfloor>"
| "json_number Infinity = JNull"
| "json_number NaN = JNull"

subsection \<open>The handler\<close>

text \<open>
  \<^verbatim>\<open>data.sentCount || 0\<close>: the stored count read as a number of the host, and 0 for a count
  that is absent (or is 0).
\<close>

definition or_zero :: "nat option \<Rightarrow> double" where
  "or_zero c = (case c of None \<Rightarrow> Finite 0 | Some n \<Rightarrow> to_double (of_nat n))"

text \<open>
  \<^verbatim>\<open>logsSnapshot.forEach(doc => { totalSent += data.sentCount || 0; totalFailed += data.failureCount || 0; })\<close>
\<close>

fun sum_logs :: "log_doc list \<Rightarrow> double \<times> double \<Rightarrow> double \<times> double" where
  "sum_logs [] acc = acc"
| "sum_logs (l # ls) (totalSent, totalFailed) =
     sum_logs ls (dadd totalSent (or_zero (sentCount l)), dadd totalFailed (or_zero (log_failureCount l)))"

text \<open>
  \<^verbatim>\<open>totalSent > 0 ? ((totalSent / (totalSent + totalFailed)) * 100).toFixed(2) + '%' : '0%'\<close>
\<close>

definition successRate :: "double \<Rightarrow> double \<Rightarrow> string" where
  "successRate totalSent totalFailed =
     (if dpos totalSent
      then toFixed2 (dmul (ddiv totalSent (dadd totalSent totalFailed)) (Finite 100)) @ ''%''
      else ''0%'')"

definition thirty_days_ms :: int where
  "thirty_days_ms = 30 * 24 * 60 * 60 * 1000"

definition getNotificationStats :: "env \<Rightarrow> request \<Rightarrow> world \<Rightarrow> response \<times> world" where
  "getNotificationStats env req w =
     (if req_method req \<noteq> ''GET'' then
        (\<lparr> res_status = 405, res_json = [(''error'', JStr ''Method not allowed'')] \<rparr>, w)
      else
        (case tokens_get env w of
           (Inl msg, w1) \<Rightarrow> fail500 ''Error getting stats:'' msg w1
         | (Inr tokensSnapshot, w1) \<Rightarrow>
             (let totalTokens = length tokensSnapshot;
                  thirtyDaysAgo = now env - thirty_days_ms
              in case logs_where_newer env thirtyDaysAgo w1 of
                   (Inl msg, w2) \<Rightarrow> fail500 ''Error getting stats:'' msg w2
                 | (Inr logsSnapshot, w2) \<Rightarrow>
                     (case sum_logs logsSnapshot (Finite 0, Finite 0) of
                        (totalSent, totalFailed) \<Rightarrow>
                          (\<lparr> res_status = 200,
                             res_json =
                               [(''totalTokens'', JNum (int totalTokens)),
                                (''successRate'', JStr (successRate totalSent totalFailed)),
                                (''last30Days'', JObj
                                   [(''sent'', json_number totalSent),
                                    (''failed'', json_number totalFailed),
                                    (''total'', json_number (dadd totalSent totalFailed))])] \<rparr>,
                           w2)))))"

section \<open>Quantities the properties speak about\<close>

text \<open>
  The log entries of the trailing 30-day window and their exact totals, a count that is
  absent counting as 0.
\<close>

definition trailing_logs :: "env \<Rightarrow> world \<Rightarrow> log_doc list" where
  "trailing_logs env w = filter (newer_than (now env - thirty_days_ms)) (notification_logs w)"

definition count_of :: "nat option \<Rightarrow> nat" where
  "count_of c = (case c of None \<Rightarrow> 0 | Some n \<Rightarrow> n)"

definition sent_in_window :: "env \<Rightarrow> world \<Rightarrow> nat" where
  "sent_in_window env w = sum_list (map (\<lambda>l. count_of (sentCount l)) (trailing_logs env w))"

definition failed_in_window :: "env \<Rightarrow> world \<Rightarrow> nat" where
  "failed_in_window env w = sum_list (map (\<lambda>l. count_of (log_failureCount l)) (trailing_logs env w))"

text \<open>The two totals as the handler computes them, in the numbers of the host.\<close>

definition window_totals :: "env \<Rightarrow> world \<Rightarrow> double \<times> double" where
  "window_totals env w = sum_logs (trailing_logs env w) (Finite 0, Finite 0)"

text \<open>
  The success rate of the response, and the number the handler divides by.
\<close>

definition rate_of :: "response \<Rightarrow> jsval" where
  "rate_of res = get_prop (res_json res) ''successRate''"

definition divisor :: "env \<Rightarrow> world \<Rightarrow> double" where
  "divisor env w = dadd (fst (window_totals env w)) (snd (window_totals env w))"

text \<open>
  A total of the host follows an exact count: it is the count itself while that is below
  \<open>2\<^sup>5\<^sup>3\<close>, it is 0 for the count 0 and at least 1 (or infinite) for a positive count.
\<close>

definition follows :: "double \<Rightarrow> nat \<Rightarrow> bool" where
  "follows d n \<longleftrightarrow>
     (n < 2 ^ 53 \<longrightarrow> d = Finite (of_nat n)) \<and>
     (n = 0 \<longrightarrow> d = Finite 0) \<and>
     (0 < n \<longrightarrow> d = Infinity \<or> (\<exists>v. d = Finite v \<and> 1 \<le> v))"

text \<open>
  The world of \<^verbatim>\<open>sendNotification\<close> when the gateway has answered \<open>rs\<close> and the block that
  cleans up failed tokens is about to start.
\<close>

definition world_after_send :: "env \<Rightarrow> request \<Rightarrow> send_response list \<Rightarrow> world \<Rightarrow> world" where
  "world_after_send env req rs w =
     emit (ConsoleLog (''Notification sent - Success: ''
             @ string_of_nat (successCount (batch_of rs)) @ '', Failed: ''
             @ string_of_nat (failureCount (batch_of rs))))
       (emit (SendMulticast (collect_tokens (notification_tokens w)) (notification_message env (req_body req)))
          (emit TokensGet w))"

text \<open>The token values the store holds.\<close>

definition stored_tokens :: "world \<Rightarrow> jsval set" where
  "stored_tokens w = token ` set (notification_tokens w)"

text \<open>The token values a handler looked up in the store, in the order of the lookups.\<close>

fun lookups_in :: "event list \<Rightarrow> jsval list" where
  "lookups_in [] = []"
| "lookups_in (TokensWhereToken t # es) = t # lookups_in es"
| "lookups_in (e # es) = lookups_in es"

definition token_lookups :: "world \<Rightarrow> jsval list" where
  "token_lookups w = lookups_in (trace w)"

text \<open>The calls a handler made to the push gateway, and the log entries it appended.\<close>

definition gateway_calls :: "world \<Rightarrow> event list" where
  "gateway_calls w = filter is_gateway_call (trace w)"

definition log_adds :: "world \<Rightarrow> event list" where
  "log_adds w = filter is_log_add (trace w)"

section \<open>Concrete scenarios\<close>

text \<open>A store and a gateway that answer every call; the gateway reports \<open>gw\<close>.\<close>

definition calm_env :: "(jsval list \<Rightarrow> jsval \<Rightarrow> string + send_response list) \<Rightarrow> env" where
  "calm_env gw =
     \<lparr> now = 1700000000000,
       nowISO = ''2023-11-14T22:13:20.000Z'',
       tokens_get_fault = None,
       token_query_fault = (\<lambda>t. None),
       doc_delete_fault = (\<lambda>i. False),
       expired_query_fault = None,
       batch_commit_fault = None,
       logs_query_fault = None,
       logs_add_fault = None,
       sendMulticast = gw,
       send = (\<lambda>m. None) \<rparr>"

definition gw_reports :: "send_response list \<Rightarrow> jsval list \<Rightarrow> jsval \<Rightarrow> string + send_response list" where
  "gw_reports rs ts m = Inr rs"

definition doc_A :: token_doc where
  "doc_A = \<lparr> doc_id = ''d1'', token = JStr ''A'', registeredAt = Some 1699000000000 \<rparr>"

definition doc_B :: token_doc where
  "doc_B = \<lparr> doc_id = ''d2'', token = JStr ''B'', registeredAt = Some 1699000000000 \<rparr>"

definition doc_A_again :: token_doc where
  "doc_A_again = \<lparr> doc_id = ''d3'', token = JStr ''A'', registeredAt = Some 1699500000000 \<rparr>"

definition doc_old :: token_doc where
  "doc_old = \<lparr> doc_id = ''d4'', token = JStr ''C'', registeredAt = Some 1600000000000 \<rparr>"

definition doc_blank :: token_doc where
  "doc_blank = \<lparr> doc_id = ''d5'', token = JStr [], registeredAt = Some 1699000000000 \<rparr>"

definition world_of :: "token_doc list \<Rightarrow> log_doc list \<Rightarrow> world" where
  "world_of ds ls = \<lparr> notification_tokens = ds, notification_logs = ls, trace = [] \<rparr>"

definition post_update :: request where
  "post_update =
     \<lparr> req_method = ''POST'',
       req_body = [(''appId'', JStr ''app1''), (''appName'', JStr ''Mirror''), (''type'', JStr ''UPDATE'')] \<rparr>"

definition post_no_type :: request where
  "post_no_type = \<lparr> req_method = ''POST'', req_body = [(''appId'', JStr ''app1'')] \<rparr>"

definition post_no_progress :: request where
  "post_no_progress = \<lparr> req_method = ''POST'', req_body = [(''appId'', JStr ''app1'')] \<rparr>"

definition post_progress_zero :: request where
  "post_progress_zero =
     \<lparr> req_method = ''POST'',
       req_body = [(''appId'', JStr ''app1''), (''appName'', JStr ''Mirror''), (''progress'', JNum 0)] \<rparr>"

definition get_stats :: request where
  "get_stats = \<lparr> req_method = ''GET'', req_body = [] \<rparr>"

text \<open>An environment in which the lookup of token \<open>A\<close> is rejected.\<close>

definition lookup_A_rejected :: "(jsval list \<Rightarrow> jsval \<Rightarrow> string + send_response list) \<Rightarrow> env" where
  "lookup_A_rejected gw =
     (calm_env gw)\<lparr> token_query_fault := (\<lambda>t. if t = JStr ''A'' then Some ''unavailable'' else None) \<rparr>"

text \<open>An environment in which the delete of document \<open>d1\<close> is rejected.\<close>

definition delete_d1_rejected :: "(jsval list \<Rightarrow> jsval \<Rightarrow> string + send_response list) \<Rightarrow> env" where
  "delete_d1_rejected gw = (calm_env gw)\<lparr> doc_delete_fault := (\<lambda>i. i = ''d1'') \<rparr>"

text \<open>A log entry of the window with no delivery and five failures.\<close>

definition log_all_failed :: log_doc where
  "log_all_failed =
     \<lparr> log_appId = JStr ''app1'', log_appName = JStr ''Mirror'', log_type = ''UPDATE'',
       log_version = JStr ''1.1'', sentCount = Some 0, log_failureCount = Some 5,
       log_timestamp = Some 1699999000000 \<rparr>"

definition log_three_of_four :: log_doc where
  "log_three_of_four =
     \<lparr> log_appId = JStr ''app1'', log_appName = JStr ''Mirror'', log_type = ''UPDATE'',
       log_version = JStr ''1.1'', sentCount = Some 3, log_failureCount = Some 1,
       log_timestamp = Some 1699999000000 \<rparr>"

text \<open>An update that changes the icon and leaves the version, and one that changes the version.\<close>

definition icon_change :: change where
  "icon_change =
     \<lparr> change_before = [(''name'', JStr ''Mirror''), (''version'', JStr ''1.0''), (''icon'', JStr ''a.png'')],
       change_after = [(''name'', JStr ''Mirror''), (''version'', JStr ''1.0''), (''icon'', JStr ''b.png'')] \<rparr>"


definition version_change :: change where
  "version_change =
     \<lparr> change_before = [(''name'', JStr ''Mirror''), (''version'', JStr ''1.0'')],
       change_after = [(''name'', JStr ''Mirror''), (''version'', JStr ''1.1'')] \<rparr>"

section \<open>Facts about the building blocks\<close>

lemma collect_tokens_eq: "collect_tokens ds = map token (filter (\<lambda>d. truthy (token d)) ds)"
  by (induction ds) auto

lemma collect_tokens_truthy: "t \<in> set (collect_tokens ds) \<Longrightarrow> truthy t"
  by (auto simp: collect_tokens_eq)

lemma set_failedTokens:
  "set (failedTokens (batch_of rs) tokens) =
     {t. \<exists>i. i < length rs \<and> i < length tokens \<and> \<not> success (rs ! i) \<and> tokens ! i = t \<and> truthy t}"
proof -
  define g where "g i = (if success (rs ! i) then JNull else at_index tokens i)" for i
  define L where
    "L = map (\<lambda>(resp, idx). if success resp then JNull else at_index tokens idx) (zip rs [0..<length rs])"
  have len: "length L = length rs" by (simp add: L_def)
  have nth: "L ! i = g i" if "i < length rs" for i
    using that by (simp add: L_def g_def)
  have mem: "t \<in> set L \<longleftrightarrow> (\<exists>i<length rs. t = g i)" for t
    unfolding in_set_conv_nth len using nth by metis
  have "set (failedTokens (batch_of rs) tokens) = {t \<in> set L. truthy t}"
    by (simp add: failedTokens_def batch_of_def L_def)
  also have "\<dots> = {t. \<exists>i. i < length rs \<and> i < length tokens \<and> \<not> success (rs ! i) \<and> tokens ! i = t \<and> truthy t}"
    unfolding mem g_def by (auto simp: at_index_def split: if_splits)
  finally show ?thesis .
qed

lemma emit_tokens [simp]: "notification_tokens (emit e w) = notification_tokens w"
  by (simp add: emit_def)

lemma emit_logs [simp]: "notification_logs (emit e w) = notification_logs w"
  by (simp add: emit_def)

lemma emit_trace [simp]: "trace (emit e w) = trace w @ [e]"
  by (simp add: emit_def)

lemma doc_ref_delete_tokens:
  "notification_tokens (doc_ref_delete env d w) =
     filter (\<lambda>x. \<not> (doc_id x = doc_id d \<and> \<not> doc_delete_fault env (doc_id x))) (notification_tokens w)"
  by (auto simp: doc_ref_delete_def intro: filter_cong)

lemma snapshot_delete_all_tokens:
  "notification_tokens (snapshot_delete_all env ds w) =
     filter (\<lambda>x. \<not> (doc_id x \<in> doc_id ` set ds \<and> \<not> doc_delete_fault env (doc_id x))) (notification_tokens w)"
proof (induction ds arbitrary: w)
  case Nil
  then show ?case by simp
next
  case (Cons d ds)
  show ?case
    by (simp add: Cons.IH doc_ref_delete_tokens) (rule filter_cong, auto)
qed

lemma snapshot_delete_all_logs [simp]:
  "notification_logs (snapshot_delete_all env ds w) = notification_logs w"
  by (induction ds arbitrary: w) (auto simp: doc_ref_delete_def)

lemma cleanup_failed_subset:
  "set (notification_tokens (snd (cleanup_failed env ts w))) \<subseteq> set (notification_tokens w)"
proof (induction ts arbitrary: w)
  case Nil
  then show ?case by simp
next
  case (Cons t ts)
  show ?case
  proof (cases "token_query_fault env t")
    case None
    have "set (notification_tokens (snd (cleanup_failed env (t # ts) w)))
          \<subseteq> set (notification_tokens (snapshot_delete_all env (filter (\<lambda>d. token d = t) (notification_tokens w)) (emit (TokensWhereToken t) w)))"
      using Cons.IH by (simp add: tokens_where_token_def None)
    also have "\<dots> \<subseteq> set (notification_tokens w)"
      by (simp add: snapshot_delete_all_tokens)
    finally show ?thesis .
  next
    case (Some msg)
    then show ?thesis by (simp add: tokens_where_token_def)
  qed
qed

lemma cleanup_failed_removes:
  assumes "cleanup_failed env ts w = (Inr u, w')"
    and "t \<in> set ts" and "token d = t" and "\<not> doc_delete_fault env (doc_id d)"
  shows "d \<notin> set (notification_tokens w')"
  using assms
proof (induction ts arbitrary: w)
  case Nil
  then show ?case by simp
next
  case (Cons a ts)
  from Cons.prems(1) have nofault: "token_query_fault env a = None"
    by (cases "token_query_fault env a") (auto simp: tokens_where_token_def)
  define w1 where "w1 = snapshot_delete_all env (filter (\<lambda>d. token d = a) (notification_tokens w)) (emit (TokensWhereToken a) w)"
  from Cons.prems(1) nofault have rest: "cleanup_failed env ts w1 = (Inr u, w')"
    by (simp add: tokens_where_token_def w1_def)
  have sub: "set (notification_tokens w') \<subseteq> set (notification_tokens w1)"
    using cleanup_failed_subset [of env ts w1] rest by simp
  show ?case
  proof (cases "a = t")
    case True
    have "d \<notin> set (notification_tokens w1)"
      using Cons.prems(3,4) True by (auto simp: w1_def snapshot_delete_all_tokens)
    with sub show ?thesis by blast
  next
    case False
    with Cons.prems(2) have "t \<in> set ts" by simp
    from Cons.IH [OF rest this Cons.prems(3,4)] show ?thesis .
  qed
qed

lemma cleanup_failed_Inr_iff:
  "fst (cleanup_failed env ts w) = Inr () \<longleftrightarrow> (\<forall>t \<in> set ts. token_query_fault env t = None)"
proof (induction ts arbitrary: w)
  case Nil
  then show ?case by simp
next
  case (Cons a ts)
  then show ?case
    by (cases "token_query_fault env a") (auto simp: tokens_where_token_def)
qed

lemma snapshot_delete_all_gateway:
  "filter is_gateway_call (trace (snapshot_delete_all env ds w)) = filter is_gateway_call (trace w)"
  by (induction ds arbitrary: w) (auto simp: doc_ref_delete_def)

lemma cleanup_failed_gateway:
  "filter is_gateway_call (trace (snd (cleanup_failed env ts w))) = filter is_gateway_call (trace w)"
proof (induction ts arbitrary: w)
  case Nil
  then show ?case by simp
next
  case (Cons a ts)
  then show ?case
    by (cases "token_query_fault env a") (auto simp: tokens_where_token_def snapshot_delete_all_gateway)
qed

lemma cleanup_failed_exact:
  assumes "distinct (map doc_id (notification_tokens w))"
    and "\<forall>i. \<not> doc_delete_fault env i"
    and "cleanup_failed env ts w = (Inr u, w')"
  shows "notification_tokens w' = filter (\<lambda>d. token d \<notin> set ts) (notification_tokens w)"
  using assms
proof (induction ts arbitrary: w)
  case Nil
  then show ?case by simp
next
  case (Cons a ts)
  from Cons.prems(3) have nofault: "token_query_fault env a = None"
    by (cases "token_query_fault env a") (auto simp: tokens_where_token_def)
  define w1 where "w1 = snapshot_delete_all env (filter (\<lambda>d. token d = a) (notification_tokens w)) (emit (TokensWhereToken a) w)"
  from Cons.prems(3) nofault have rest: "cleanup_failed env ts w1 = (Inr u, w')"
    by (simp add: tokens_where_token_def w1_def)
  have inj: "inj_on doc_id (set (notification_tokens w))"
    using Cons.prems(1) by (simp add: distinct_map)
  have w1_tokens: "notification_tokens w1 = filter (\<lambda>d. token d \<noteq> a) (notification_tokens w)"
    unfolding w1_def snapshot_delete_all_tokens
    using Cons.prems(2) inj by (auto intro!: filter_cong dest: inj_onD)
  have "distinct (map doc_id (notification_tokens w1))"
    using Cons.prems(1) by (simp add: w1_tokens distinct_map_filter)
  from Cons.IH [OF this Cons.prems(2) rest] show ?case
    by (auto simp: w1_tokens intro: filter_cong)
qed


lemma failureCount_pos: "failureCount (batch_of rs) > 0 \<longleftrightarrow> (\<exists>r \<in> set rs. \<not> success r)"
  by (simp add: batch_of_def filter_empty_conv)

lemma failedTokens_none: "failureCount (batch_of rs) = 0 \<Longrightarrow> failedTokens (batch_of rs) tokens = []"
proof -
  assume "failureCount (batch_of rs) = 0"
  then have "\<forall>r \<in> set rs. success r" using failureCount_pos [of rs] by simp
  then have "set (failedTokens (batch_of rs) tokens) = {}"
    unfolding set_failedTokens by auto
  then show ?thesis by simp
qed

lemma reconcile_eq:
  "reconcile env (batch_of rs) tokens w = cleanup_failed env (failedTokens (batch_of rs) tokens) w"
  by (cases "failureCount (batch_of rs) > 0") (simp_all add: reconcile_def failedTokens_none)

lemma sendNotification_sent:
  assumes "req_method req = ''POST''"
    and "truthy (get_prop (req_body req) ''appId'')"
    and "truthy (get_prop (req_body req) ''type'')"
    and "tokens_get_fault env = None"
    and "collect_tokens (notification_tokens w) \<noteq> []"
    and "sendMulticast env (collect_tokens (notification_tokens w)) (notification_message env (req_body req)) = Inr rs"
  shows "sendNotification env req w =
     (case reconcile env (batch_of rs) (collect_tokens (notification_tokens w)) (world_after_send env req rs w) of
        (Inl msg, w4) \<Rightarrow> fail500 ''Error sending notification:'' msg w4
      | (Inr u, w4) \<Rightarrow>
          (\<lparr> res_status = 200,
             res_json =
               [(''success'', JBool True),
                (''successCount'', JNum (int (successCount (batch_of rs)))),
                (''failureCount'', JNum (int (failureCount (batch_of rs)))),
                (''totalSent'', JNum (int (length (collect_tokens (notification_tokens w))))),
                (''message'', JStr (''Notification sent to ''
                    @ string_of_nat (successCount (batch_of rs)) @ '' devices''))] \<rparr>,
           w4))"
  using assms
  by (simp add: sendNotification_def tokens_get_def messaging_sendMulticast_def world_after_send_def Let_def)

lemma world_after_send_tokens [simp]:
  "notification_tokens (world_after_send env req rs w) = notification_tokens w"
  by (simp add: world_after_send_def)

lemma onRequest_callback:
  "req_method req \<noteq> ''OPTIONS'' \<Longrightarrow> onRequest callback env req w = callback env req w"
  by (simp add: onRequest_def cors_def)

lemma onRequest_preflight:
  "req_method req = ''OPTIONS'' \<Longrightarrow>
     onRequest callback env req w = (\<lparr> res_status = 204, res_json = [] \<rparr>, w)"
  by (simp add: onRequest_def cors_def)

section \<open>Pruning of invalid handles\<close>

text \<open>
  Claim C1, as the code has it. In a broadcast by \<^verbatim>\<open>sendNotification\<close> in which the lookup
  of every failed token is answered, the handler answers 200, and a token whose delivery
  outcome is \<open>Failed InvalidHandle\<close> is not among the token values of the store afterwards,
  provided the delete of no document carrying it is rejected. (The deletes are not awaited;
  the store meant is the one in which they have settled.)
\<close>

theorem invalid_handle_pruned:
  assumes "req_method req = ''POST''"
    and "truthy (get_prop (req_body req) ''appId'')"
    and "truthy (get_prop (req_body req) ''type'')"
    and "tokens_get_fault env = None"
    and "sendMulticast env (collect_tokens (notification_tokens w)) (notification_message env (req_body req)) = Inr rs"
    and "\<forall>t \<in> set (failedTokens (batch_of rs) (collect_tokens (notification_tokens w))).
           token_query_fault env t = None"
    and "i < length rs"
    and "i < length (collect_tokens (notification_tokens w))"
    and "rs ! i = Failed InvalidHandle"
    and "\<forall>d \<in> set (notification_tokens w).
           token d = collect_tokens (notification_tokens w) ! i \<longrightarrow> \<not> doc_delete_fault env (doc_id d)"
  shows "res_status (fst (sendNotification env req w)) = 200 \<and>
         collect_tokens (notification_tokens w) ! i \<notin> stored_tokens (snd (sendNotification env req w))"
proof -
  let ?tokens = "collect_tokens (notification_tokens w)"
  let ?w3 = "world_after_send env req rs w"
  from assms(8) have nonempty: "?tokens \<noteq> []" by auto
  obtain r w4 where rec: "reconcile env (batch_of rs) ?tokens ?w3 = (r, w4)"
    by (cases "reconcile env (batch_of rs) ?tokens ?w3")
  have "fst (cleanup_failed env (failedTokens (batch_of rs) ?tokens) ?w3) = Inr ()"
    using assms(6) by (simp add: cleanup_failed_Inr_iff)
  with rec obtain u where r: "r = Inr u" by (auto simp: reconcile_eq)
  have run: "sendNotification env req w =
      (\<lparr> res_status = 200,
         res_json =
           [(''success'', JBool True),
            (''successCount'', JNum (int (successCount (batch_of rs)))),
            (''failureCount'', JNum (int (failureCount (batch_of rs)))),
            (''totalSent'', JNum (int (length ?tokens))),
            (''message'', JStr (''Notification sent to ''
                @ string_of_nat (successCount (batch_of rs)) @ '' devices''))] \<rparr>, w4)"
    using sendNotification_sent [OF assms(1-4) nonempty assms(5)] rec r by simp
  have truthy_i: "truthy (?tokens ! i)"
    by (rule collect_tokens_truthy [OF nth_mem [OF assms(8)]])
  have failed: "?tokens ! i \<in> set (failedTokens (batch_of rs) ?tokens)"
    unfolding set_failedTokens using assms(7,8,9) truthy_i by auto
  have cf: "cleanup_failed env (failedTokens (batch_of rs) ?tokens) ?w3 = (Inr u, w4)"
    using rec r by (simp add: reconcile_eq)
  have sub: "set (notification_tokens w4) \<subseteq> set (notification_tokens w)"
    using cleanup_failed_subset [of env "failedTokens (batch_of rs) ?tokens" ?w3] cf by simp
  have "d \<notin> set (notification_tokens w4)" if tok: "token d = ?tokens ! i" for d
  proof (cases "d \<in> set (notification_tokens w)")
    case True
    with assms(10) tok have "\<not> doc_delete_fault env (doc_id d)" by blast
    from cleanup_failed_removes [OF cf failed tok this] show ?thesis .
  next
    case False
    with sub show ?thesis by blast
  qed
  then have "?tokens ! i \<notin> stored_tokens w4"
    by (auto simp: stored_tokens_def)
  with run show ?thesis by simp
qed

theorem invalid_handle_pruned_witness:
  "JStr ''B'' \<in> stored_tokens (world_of [doc_A, doc_B] []) \<and>
   res_status (fst (sendNotification (delete_d1_rejected (gw_reports [Delivered, Failed InvalidHandle])) post_update
        (world_of [doc_A, doc_B] []))) = 200 \<and>
   JStr ''B'' \<notin> stored_tokens (snd (sendNotification (delete_d1_rejected (gw_reports [Delivered, Failed InvalidHandle])) post_update
        (world_of [doc_A, doc_B] [])))"
  using invalid_handle_pruned [of post_update "delete_d1_rejected (gw_reports [Delivered, Failed InvalidHandle])"
      "world_of [doc_A, doc_B] []" "[Delivered, Failed InvalidHandle]" 1]
  by (simp add: post_update_def calm_env_def delete_d1_rejected_def gw_reports_def world_of_def
      doc_A_def doc_B_def get_prop_def stored_tokens_def)

text \<open>
  Claim C1 as stated fails: the delivery to \<open>A\<close> fails with \<open>InvalidHandle\<close>, the store
  rejects the delete of the one document that carries \<open>A\<close>, the handler answers 200, and
  \<open>A\<close> is still in the store.
\<close>

theorem rejected_delete_keeps_invalid_handle:
  "res_status (fst (sendNotification
       (delete_d1_rejected (gw_reports [Failed InvalidHandle, Delivered])) post_update
       (world_of [doc_A, doc_B] []))) = 200 \<and>
   JStr ''A'' \<in> stored_tokens (snd (sendNotification
       (delete_d1_rejected (gw_reports [Failed InvalidHandle, Delivered])) post_update
       (world_of [doc_A, doc_B] [])))"
  by (simp add: sendNotification_def tokens_get_def messaging_sendMulticast_def reconcile_def
      failedTokens_def at_index_def tokens_where_token_def doc_ref_delete_def
      calm_env_def delete_d1_rejected_def gw_reports_def post_update_def world_of_def doc_A_def doc_B_def
      get_prop_def stored_tokens_def batch_of_def emit_def Let_def upt_rec)

section \<open>What the broadcast sends\<close>

lemma string_of_nat_digit: "n < 10 \<Longrightarrow> string_of_nat n = [digit_char n]"
  by (simp add: string_of_nat.simps)

lemma sendNotification_gateway:
  assumes "req_method req = ''POST''"
    and "truthy (get_prop (req_body req) ''appId'')"
    and "truthy (get_prop (req_body req) ''type'')"
    and "tokens_get_fault env = None"
    and "collect_tokens (notification_tokens w) \<noteq> []"
  shows "gateway_calls (snd (sendNotification env req w)) =
           gateway_calls w @ [SendMulticast (collect_tokens (notification_tokens w))
                                (notification_message env (req_body req))]"
proof (cases "sendMulticast env (collect_tokens (notification_tokens w)) (notification_message env (req_body req))")
  case (Inl msg)
  with assms show ?thesis
    by (simp add: sendNotification_def tokens_get_def messaging_sendMulticast_def fail500_def
        gateway_calls_def Let_def)
next
  case (Inr rs)
  let ?tokens = "collect_tokens (notification_tokens w)"
  let ?w3 = "world_after_send env req rs w"
  obtain r w4 where rec: "reconcile env (batch_of rs) ?tokens ?w3 = (r, w4)"
    by (cases "reconcile env (batch_of rs) ?tokens ?w3")
  have "filter is_gateway_call (trace w4) = filter is_gateway_call (trace ?w3)"
    using cleanup_failed_gateway [of env "failedTokens (batch_of rs) ?tokens" ?w3] rec
    by (simp add: reconcile_eq)
  also have "\<dots> = gateway_calls w @ [SendMulticast ?tokens (notification_message env (req_body req))]"
    by (simp add: world_after_send_def gateway_calls_def)
  finally have w4: "gateway_calls w4 = gateway_calls w @ [SendMulticast ?tokens (notification_message env (req_body req))]"
    by (simp add: gateway_calls_def)
  show ?thesis
    using sendNotification_sent [OF assms Inr] rec w4
    by (cases r) (simp_all add: fail500_def gateway_calls_def)
qed

text \<open>
  Claim C3, as the code has it. \<^verbatim>\<open>sendNotification\<close> does not deduplicate. A valid POST
  over a store with at least one truthy token calls \<^verbatim>\<open>sendMulticast\<close> exactly once, with one
  entry for every stored document whose token is truthy, in the order of the snapshot and
  with every repetition; and the \<open>totalSent\<close> of a 200 response is the number of those
  documents, not the number of distinct values.
\<close>

theorem broadcast_sends_one_entry_per_document:
  assumes "req_method req = ''POST''"
    and "truthy (get_prop (req_body req) ''appId'')"
    and "truthy (get_prop (req_body req) ''type'')"
    and "tokens_get_fault env = None"
    and "collect_tokens (notification_tokens w) \<noteq> []"
  shows "gateway_calls (snd (sendNotification env req w)) =
           gateway_calls w @ [SendMulticast (map token (filter (\<lambda>d. truthy (token d)) (notification_tokens w)))
                                (notification_message env (req_body req))] \<and>
         (res_status (fst (sendNotification env req w)) = 200 \<longrightarrow>
            get_prop (res_json (fst (sendNotification env req w))) ''totalSent'' =
              JNum (int (length (filter (\<lambda>d. truthy (token d)) (notification_tokens w)))))"
proof -
  let ?tokens = "collect_tokens (notification_tokens w)"
  have calls: "gateway_calls (snd (sendNotification env req w)) =
           gateway_calls w @ [SendMulticast (map token (filter (\<lambda>d. truthy (token d)) (notification_tokens w)))
                                (notification_message env (req_body req))]"
    using sendNotification_gateway [OF assms] by (simp add: collect_tokens_eq)
  have total: "get_prop (res_json (fst (sendNotification env req w))) ''totalSent'' =
              JNum (int (length (filter (\<lambda>d. truthy (token d)) (notification_tokens w))))"
    if ok: "res_status (fst (sendNotification env req w)) = 200"
  proof (cases "sendMulticast env ?tokens (notification_message env (req_body req))")
    case (Inl msg)
    with assms ok show ?thesis
      by (simp add: sendNotification_def tokens_get_def messaging_sendMulticast_def fail500_def Let_def)
  next
    case (Inr rs)
    obtain r w4 where rec: "reconcile env (batch_of rs) ?tokens (world_after_send env req rs w) = (r, w4)"
      by (cases "reconcile env (batch_of rs) ?tokens (world_after_send env req rs w)")
    show ?thesis
      using sendNotification_sent [OF assms Inr] rec ok
      by (cases r) (simp_all add: fail500_def get_prop_def collect_tokens_eq)
  qed
  from calls total show ?thesis by blast
qed

theorem broadcast_sends_one_entry_per_document_witness:
  "gateway_calls (snd (sendNotification (calm_env (gw_reports [Delivered, Delivered])) post_update
        (world_of [doc_A, doc_blank, doc_B] []))) =
     [SendMulticast [JStr ''A'', JStr ''B'']
        (notification_message (calm_env (gw_reports [Delivered, Delivered])) (req_body post_update))]"
  using broadcast_sends_one_entry_per_document [of post_update "calm_env (gw_reports [Delivered, Delivered])"
      "world_of [doc_A, doc_blank, doc_B] []"]
  by (simp add: post_update_def calm_env_def world_of_def doc_A_def doc_B_def doc_blank_def
      get_prop_def gateway_calls_def)

text \<open>
  Claim C3 as stated fails: with the value \<open>A\<close> stored in two documents the gateway is
  called with \<open>A\<close> twice and \<open>totalSent\<close> is 2, while there is one distinct value.
\<close>

theorem duplicate_token_sent_twice:
  "gateway_calls (snd (sendNotification (calm_env (gw_reports [Delivered, Delivered])) post_update
        (world_of [doc_A, doc_A_again] []))) =
     [SendMulticast [JStr ''A'', JStr ''A'']
        (notification_message (calm_env (gw_reports [Delivered, Delivered])) (req_body post_update))] \<and>
   get_prop (res_json (fst (sendNotification (calm_env (gw_reports [Delivered, Delivered])) post_update
        (world_of [doc_A, doc_A_again] [])))) ''totalSent'' = JNum 2 \<and>
   card (stored_tokens (world_of [doc_A, doc_A_again] [])) = 1"
  by (simp add: sendNotification_def tokens_get_def messaging_sendMulticast_def reconcile_def
      calm_env_def gw_reports_def post_update_def world_of_def doc_A_def doc_A_again_def
      get_prop_def gateway_calls_def stored_tokens_def batch_of_def emit_def Let_def)

section \<open>Which tokens the reconciliation deletes\<close>

lemma cleanup_failed_Inl:
  "fst (cleanup_failed env ts w) \<noteq> Inr () \<Longrightarrow> \<exists>msg. fst (cleanup_failed env ts w) = Inl msg"
  by (cases "fst (cleanup_failed env ts w)") auto

lemma set_failedTokens_zip:
  assumes "\<forall>t \<in> set tokens. truthy t"
  shows "set (failedTokens (batch_of rs) tokens) =
           set (map snd (filter (\<lambda>(r, t). r \<noteq> Delivered) (zip rs tokens)))"
proof -
  have s: "\<not> success x \<longleftrightarrow> x \<noteq> Delivered" for x by (cases x) auto
  have "set (map snd (filter (\<lambda>(r, t). r \<noteq> Delivered) (zip rs tokens))) =
          {t. \<exists>i. i < length rs \<and> i < length tokens \<and> rs ! i \<noteq> Delivered \<and> tokens ! i = t}"
    by (auto simp: set_zip image_iff) force
  also have "\<dots> = {t. \<exists>i. i < length rs \<and> i < length tokens \<and> \<not> success (rs ! i) \<and> tokens ! i = t \<and> truthy t}"
    using assms unfolding s by (metis (no_types, lifting) nth_mem)
  finally show ?thesis unfolding set_failedTokens ..
qed

text \<open>
  Claim C2, as the code has it. The reconciliation of \<^verbatim>\<open>sendNotification\<close> reads only
  \<^verbatim>\<open>resp.success\<close>, never the kind of the error. When the store answers its calls and document
  ids are unique, the documents left after the broadcast are exactly those whose token value
  is paired with no failed outcome: a token that failed with \<open>TransientFailure\<close> or
  \<open>QuotaExceeded\<close> is deleted like one that failed with \<open>InvalidHandle\<close>, and the tokens
  that were delivered to at every position are kept.
\<close>

theorem failed_tokens_pruned_whatever_kind:
  assumes "req_method req = ''POST''"
    and "truthy (get_prop (req_body req) ''appId'')"
    and "truthy (get_prop (req_body req) ''type'')"
    and "tokens_get_fault env = None"
    and "\<forall>t. token_query_fault env t = None"
    and "\<forall>i. \<not> doc_delete_fault env i"
    and "distinct (map doc_id (notification_tokens w))"
    and "collect_tokens (notification_tokens w) \<noteq> []"
    and "sendMulticast env (collect_tokens (notification_tokens w)) (notification_message env (req_body req)) = Inr rs"
  shows "notification_tokens (snd (sendNotification env req w)) =
           filter (\<lambda>d. token d \<notin> set (map snd (filter (\<lambda>(r, t). r \<noteq> Delivered)
                                      (zip rs (collect_tokens (notification_tokens w))))))
             (notification_tokens w)"
proof -
  let ?tokens = "collect_tokens (notification_tokens w)"
  let ?w3 = "world_after_send env req rs w"
  obtain r w4 where rec: "reconcile env (batch_of rs) ?tokens ?w3 = (r, w4)"
    by (cases "reconcile env (batch_of rs) ?tokens ?w3")
  have "fst (cleanup_failed env (failedTokens (batch_of rs) ?tokens) ?w3) = Inr ()"
    using assms(5) by (simp add: cleanup_failed_Inr_iff)
  with rec have cf: "cleanup_failed env (failedTokens (batch_of rs) ?tokens) ?w3 = (Inr (), w4)"
    by (simp add: reconcile_eq)
  have run: "snd (sendNotification env req w) = w4"
    using sendNotification_sent [OF assms(1-4) assms(8,9)] rec cf by (simp add: reconcile_eq)
  have dist: "distinct (map doc_id (notification_tokens ?w3))"
    using assms(7) by simp
  have all_truthy: "\<forall>t \<in> set ?tokens. truthy t"
    using collect_tokens_truthy by blast
  have "notification_tokens w4 =
          filter (\<lambda>d. token d \<notin> set (failedTokens (batch_of rs) ?tokens)) (notification_tokens w)"
    using cleanup_failed_exact [OF dist assms(6) cf] by simp
  then show ?thesis
    unfolding run set_failedTokens_zip [OF all_truthy] .
qed

theorem failed_tokens_pruned_whatever_kind_witness:
  "notification_tokens (snd (sendNotification
       (calm_env (gw_reports [Failed QuotaExceeded, Delivered])) post_update
       (world_of [doc_A, doc_B] []))) = [doc_B]"
  using failed_tokens_pruned_whatever_kind [of post_update
      "calm_env (gw_reports [Failed QuotaExceeded, Delivered])" "world_of [doc_A, doc_B] []"
      "[Failed QuotaExceeded, Delivered]"]
  by (simp add: post_update_def calm_env_def gw_reports_def world_of_def doc_A_def doc_B_def
      get_prop_def)

text \<open>
  Claim C2 as stated fails: token \<open>A\<close>, whose delivery failed with \<open>TransientFailure\<close>, is
  in the store before the broadcast and not after it.
\<close>

theorem transient_failure_token_deleted:
  "JStr ''A'' \<in> stored_tokens (world_of [doc_A, doc_B] []) \<and>
   JStr ''A'' \<notin> stored_tokens (snd (sendNotification
       (calm_env (gw_reports [Failed TransientFailure, Delivered])) post_update
       (world_of [doc_A, doc_B] [])))"
  by (simp add: sendNotification_def tokens_get_def messaging_sendMulticast_def reconcile_def
      failedTokens_def at_index_def tokens_where_token_def doc_ref_delete_def
      calm_env_def gw_reports_def post_update_def world_of_def doc_A_def doc_B_def
      get_prop_def stored_tokens_def batch_of_def emit_def Let_def upt_rec)

lemma lookups_in_append: "lookups_in (es @ fs) = lookups_in es @ lookups_in fs"
  by (induction es rule: lookups_in.induct) auto

lemma snapshot_delete_all_lookups:
  "lookups_in (trace (snapshot_delete_all env ds w)) = lookups_in (trace w)"
  by (induction ds arbitrary: w) (auto simp: doc_ref_delete_def lookups_in_append)

lemma cleanup_failed_lookups:
  "\<forall>x \<in> set ts. token_query_fault env x = None \<Longrightarrow>
     lookups_in (trace (snd (cleanup_failed env ts w))) = lookups_in (trace w) @ ts"
proof (induction ts arbitrary: w)
  case Nil
  then show ?case by simp
next
  case (Cons a ts)
  then show ?case
    by (simp add: tokens_where_token_def snapshot_delete_all_lookups lookups_in_append)
qed

text \<open>The loop stops at the first lookup that is rejected.\<close>

lemma cleanup_failed_stops:
  assumes "\<forall>x \<in> set pre. token_query_fault env x = None"
    and "token_query_fault env t = Some msg"
  shows "cleanup_failed env (pre @ t # post) w =
           (Inl msg, emit (TokensWhereToken t) (snd (cleanup_failed env pre w)))"
  using assms(1)
proof (induction pre arbitrary: w)
  case Nil
  then show ?case using assms(2) by (simp add: tokens_where_token_def)
next
  case (Cons a pre)
  then show ?case by (simp add: tokens_where_token_def)
qed

text \<open>
  Claim C4, as the code has it. After a successful multicast, a rejected
  \<^verbatim>\<open>doc.ref.delete()\<close> is not seen by the handler (the promise is not awaited): as long as the
  lookup of every failed token is answered, the handler sends the 200 response with the
  counts already computed, whatever deletes are rejected, and every document of a failed
  token whose own delete is not rejected is gone. A rejected lookup
  \<^verbatim>\<open>where('token', '==', token).get()\<close> of a failed token is thrown by the \<^verbatim>\<open>await\<close> and
  ends the loop: the failed tokens before it have been reconciled, those after it are
  neither looked up nor deleted, and the handler answers 500 with the message of the
  rejection.
\<close>

theorem delete_rejection_unseen_lookup_rejection_fatal:
  assumes "req_method req = ''POST''"
    and "truthy (get_prop (req_body req) ''appId'')"
    and "truthy (get_prop (req_body req) ''type'')"
    and "tokens_get_fault env = None"
    and "collect_tokens (notification_tokens w) \<noteq> []"
    and "sendMulticast env (collect_tokens (notification_tokens w)) (notification_message env (req_body req)) = Inr rs"
  shows "((\<forall>t \<in> set (failedTokens (batch_of rs) (collect_tokens (notification_tokens w))).
             token_query_fault env t = None) \<longrightarrow>
          fst (sendNotification env req w) =
            \<lparr> res_status = 200,
              res_json =
                [(''success'', JBool True),
                 (''successCount'', JNum (int (length (filter success rs)))),
                 (''failureCount'', JNum (int (length (filter (\<lambda>r. \<not> success r) rs)))),
                 (''totalSent'', JNum (int (length (collect_tokens (notification_tokens w))))),
                 (''message'', JStr (''Notification sent to ''
                     @ string_of_nat (length (filter success rs)) @ '' devices''))] \<rparr> \<and>
          token_lookups (snd (sendNotification env req w)) =
            token_lookups w @ failedTokens (batch_of rs) (collect_tokens (notification_tokens w)) \<and>
          (\<forall>d \<in> set (notification_tokens w).
             token d \<in> set (failedTokens (batch_of rs) (collect_tokens (notification_tokens w))) \<and>
             \<not> doc_delete_fault env (doc_id d) \<longrightarrow>
             d \<notin> set (notification_tokens (snd (sendNotification env req w))))) \<and>
         ((\<exists>t \<in> set (failedTokens (batch_of rs) (collect_tokens (notification_tokens w))).
             token_query_fault env t \<noteq> None) \<longrightarrow>
          res_status (fst (sendNotification env req w)) = 500) \<and>
         (failedTokens (batch_of rs) (collect_tokens (notification_tokens w)) = pre @ t # post \<and>
          (\<forall>x \<in> set pre. token_query_fault env x = None) \<and> token_query_fault env t = Some msg \<longrightarrow>
          sendNotification env req w =
            (\<lparr> res_status = 500, res_json = [(''success'', JBool False), (''error'', JStr msg)] \<rparr>,
             emit (ConsoleError ''Error sending notification:'' msg)
               (emit (TokensWhereToken t)
                  (snd (cleanup_failed env pre (world_after_send env req rs w))))) \<and>
          token_lookups (snd (sendNotification env req w)) = token_lookups w @ pre @ [t] \<and>
          notification_tokens (snd (sendNotification env req w)) =
            notification_tokens (snd (cleanup_failed env pre (world_after_send env req rs w))))"
proof -
  let ?tokens = "collect_tokens (notification_tokens w)"
  let ?w3 = "world_after_send env req rs w"
  let ?failed = "failedTokens (batch_of rs) ?tokens"
  obtain r w4 where cf: "cleanup_failed env ?failed ?w3 = (r, w4)"
    by (cases "cleanup_failed env ?failed ?w3")
  note run = sendNotification_sent [OF assms, unfolded reconcile_eq cf]
  have w3_lookups: "lookups_in (trace ?w3) = token_lookups w"
    by (simp add: world_after_send_def token_lookups_def lookups_in_append)
  have ok: "fst (sendNotification env req w) =
            \<lparr> res_status = 200,
              res_json =
                [(''success'', JBool True),
                 (''successCount'', JNum (int (length (filter success rs)))),
                 (''failureCount'', JNum (int (length (filter (\<lambda>r. \<not> success r) rs)))),
                 (''totalSent'', JNum (int (length ?tokens))),
                 (''message'', JStr (''Notification sent to ''
                     @ string_of_nat (length (filter success rs)) @ '' devices''))] \<rparr> \<and>
          token_lookups (snd (sendNotification env req w)) = token_lookups w @ ?failed \<and>
          (\<forall>d \<in> set (notification_tokens w).
             token d \<in> set ?failed \<and> \<not> doc_delete_fault env (doc_id d) \<longrightarrow>
             d \<notin> set (notification_tokens (snd (sendNotification env req w))))"
    if calm: "\<forall>t \<in> set ?failed. token_query_fault env t = None"
  proof -
    have "fst (cleanup_failed env ?failed ?w3) = Inr ()"
      using calm by (simp add: cleanup_failed_Inr_iff)
    with cf have r: "r = Inr ()" by simp
    have "d \<notin> set (notification_tokens w4)"
      if "token d \<in> set ?failed" "\<not> doc_delete_fault env (doc_id d)" for d
      using cleanup_failed_removes [OF cf [unfolded r] that(1) refl that(2)] .
    moreover have "token_lookups w4 = token_lookups w @ ?failed"
      using cleanup_failed_lookups [OF calm, of ?w3] cf
      by (simp add: token_lookups_def w3_lookups)
    ultimately show ?thesis using run r by (simp add: batch_of_def)
  qed
  have bad: "res_status (fst (sendNotification env req w)) = 500"
    if "\<exists>t \<in> set ?failed. token_query_fault env t \<noteq> None"
  proof -
    have "fst (cleanup_failed env ?failed ?w3) \<noteq> Inr ()"
      using that by (simp add: cleanup_failed_Inr_iff)
    from cleanup_failed_Inl [OF this] cf obtain msg where "r = Inl msg" by auto
    then show ?thesis using run by (simp add: fail500_def)
  qed
  have stop: "sendNotification env req w =
            (\<lparr> res_status = 500, res_json = [(''success'', JBool False), (''error'', JStr msg)] \<rparr>,
             emit (ConsoleError ''Error sending notification:'' msg)
               (emit (TokensWhereToken t) (snd (cleanup_failed env pre ?w3)))) \<and>
          token_lookups (snd (sendNotification env req w)) = token_lookups w @ pre @ [t] \<and>
          notification_tokens (snd (sendNotification env req w)) =
            notification_tokens (snd (cleanup_failed env pre ?w3))"
    if split: "?failed = pre @ t # post"
      and calm: "\<forall>x \<in> set pre. token_query_fault env x = None"
      and rej: "token_query_fault env t = Some msg"
  proof -
    have "cleanup_failed env ?failed ?w3 =
            (Inl msg, emit (TokensWhereToken t) (snd (cleanup_failed env pre ?w3)))"
      unfolding split by (rule cleanup_failed_stops [OF calm rej])
    with cf have r: "r = Inl msg" and w4: "w4 = emit (TokensWhereToken t) (snd (cleanup_failed env pre ?w3))"
      by simp_all
    have "lookups_in (trace (snd (cleanup_failed env pre ?w3))) = token_lookups w @ pre"
      using cleanup_failed_lookups [OF calm, of ?w3] by (simp add: w3_lookups)
    then show ?thesis
      using run r w4 by (simp add: fail500_def token_lookups_def lookups_in_append)
  qed
  from ok bad stop show ?thesis by blast
qed

theorem delete_rejection_unseen_lookup_rejection_fatal_witness:
  "res_status (fst (sendNotification
       (delete_d1_rejected (gw_reports [Failed InvalidHandle, Failed InvalidHandle])) post_update
       (world_of [doc_A, doc_B] []))) = 200 \<and>
   doc_B \<notin> set (notification_tokens (snd (sendNotification
       (delete_d1_rejected (gw_reports [Failed InvalidHandle, Failed InvalidHandle])) post_update
       (world_of [doc_A, doc_B] [])))) \<and>
   res_status (fst (sendNotification
       (lookup_A_rejected (gw_reports [Failed InvalidHandle, Failed InvalidHandle])) post_update
       (world_of [doc_A, doc_B] []))) = 500 \<and>
   token_lookups (snd (sendNotification
       (lookup_A_rejected (gw_reports [Failed InvalidHandle, Failed InvalidHandle])) post_update
       (world_of [doc_A, doc_B] []))) = [JStr ''A''] \<and>
   notification_tokens (snd (sendNotification
       (lookup_A_rejected (gw_reports [Failed InvalidHandle, Failed InvalidHandle])) post_update
       (world_of [doc_A, doc_B] []))) = [doc_A, doc_B]"
  using delete_rejection_unseen_lookup_rejection_fatal [of post_update
      "delete_d1_rejected (gw_reports [Failed InvalidHandle, Failed InvalidHandle])"
      "world_of [doc_A, doc_B] []" "[Failed InvalidHandle, Failed InvalidHandle]"]
    delete_rejection_unseen_lookup_rejection_fatal [of post_update
      "lookup_A_rejected (gw_reports [Failed InvalidHandle, Failed InvalidHandle])"
      "world_of [doc_A, doc_B] []" "[Failed InvalidHandle, Failed InvalidHandle]"
      "[]" "JStr ''A''" "[JStr ''B'']" "''unavailable''"]
  by (simp add: post_update_def calm_env_def delete_d1_rejected_def lookup_A_rejected_def
      gw_reports_def world_of_def doc_A_def doc_B_def get_prop_def token_lookups_def
      failedTokens_def batch_of_def at_index_def upt_rec world_after_send_def lookups_in_append)

text \<open>
  Claim C4 as stated fails: the multicast succeeds and both tokens fail; the lookup that
  starts the deletion of \<open>A\<close> is rejected, the handler answers 500, and \<open>B\<close> is never
  reconciled.
\<close>

theorem lookup_rejection_aborts_and_answers_500:
  "res_status (fst (sendNotification
       (lookup_A_rejected (gw_reports [Failed InvalidHandle, Failed InvalidHandle])) post_update
       (world_of [doc_A, doc_B] []))) = 500 \<and>
   stored_tokens (snd (sendNotification
       (lookup_A_rejected (gw_reports [Failed InvalidHandle, Failed InvalidHandle])) post_update
       (world_of [doc_A, doc_B] []))) = {JStr ''A'', JStr ''B''}"
  by (simp add: sendNotification_def tokens_get_def messaging_sendMulticast_def reconcile_def
      failedTokens_def at_index_def tokens_where_token_def doc_ref_delete_def fail500_def
      calm_env_def lookup_A_rejected_def gw_reports_def post_update_def world_of_def doc_A_def doc_B_def
      get_prop_def stored_tokens_def batch_of_def emit_def Let_def upt_rec)

section \<open>Requests the handlers turn away\<close>

text \<open>
  Claim C5. A valid POST to \<^verbatim>\<open>sendNotification\<close> (both required fields truthy) for which
  the store is read and yields no truthy token is answered 404 with the error
  \<open>No notification tokens found\<close>; the only call made is the read of the collection, and the
  gateway is not called.
\<close>

theorem empty_store_404_before_gateway:
  assumes "req_method req = ''POST''"
    and "truthy (get_prop (req_body req) ''appId'')"
    and "truthy (get_prop (req_body req) ''type'')"
    and "tokens_get_fault env = None"
    and "collect_tokens (notification_tokens w) = []"
  shows "sendNotification env req w =
           (\<lparr> res_status = 404, res_json = [(''error'', JStr ''No notification tokens found'')] \<rparr>,
            emit TokensGet w) \<and>
         gateway_calls (snd (sendNotification env req w)) = gateway_calls w"
  using assms by (simp add: sendNotification_def tokens_get_def gateway_calls_def)

theorem empty_store_404_before_gateway_witness:
  "res_status (fst (sendNotification (calm_env (gw_reports [])) post_update (world_of [doc_blank] []))) = 404 \<and>
   gateway_calls (snd (sendNotification (calm_env (gw_reports [])) post_update (world_of [doc_blank] []))) = []"
  using empty_store_404_before_gateway [of post_update "calm_env (gw_reports [])" "world_of [doc_blank] []"]
  by (simp add: post_update_def calm_env_def world_of_def doc_blank_def get_prop_def gateway_calls_def)

section \<open>The update trigger\<close>

text \<open>On values that are not objects, \<^verbatim>\<open>===\<close> is equality.\<close>

lemma strict_eq_iff: "strict_eq a b \<longleftrightarrow> a = b \<and> (\<forall>kvs. a \<noteq> JObj kvs)"
  by (cases a; cases b) auto

text \<open>
  With a version that is not an object, the guard of the trigger does what its comment
  says: a version that did not change makes the trigger return nothing and leave the world
  as it was, whatever else changed in the record.
\<close>

lemma unchanged_version_no_effects:
  assumes "strict_eq (get_prop (change_before chg) ''version'') (get_prop (change_after chg) ''version'')"
  shows "notifyOnAppUpdate env chg appId w = (Inr None, w)"
  using assms by (simp add: notifyOnAppUpdate_def)

lemma unchanged_plain_version_no_effects:
  assumes "get_prop (change_before chg) ''version'' = get_prop (change_after chg) ''version''"
    and "\<forall>kvs. get_prop (change_after chg) ''version'' \<noteq> JObj kvs"
  shows "notifyOnAppUpdate env chg appId w = (Inr None, w)"
  using assms by (intro unchanged_version_no_effects) (simp add: strict_eq_iff)


section \<open>Validation of required fields\<close>

text \<open>
  Claim C7. A POST to \<^verbatim>\<open>sendNotification\<close> whose body lacks \<open>appId\<close> or \<open>type\<close>, and a
  request to \<^verbatim>\<open>sendDownloadProgress\<close> whose body lacks \<open>appId\<close> or \<open>progress\<close>, is answered
  400 with the world unchanged, so before any call to the store or the gateway. A progress
  of 0 is present: with a truthy \<open>appId\<close> the answer is never 400. (The requests are those
  that reach the callbacks; \<open>cors\<close> answers a preflight before them.)
\<close>

theorem missing_field_400_before_any_call:
  "(req_method req = ''POST'' \<and>
      (get_prop (req_body req) ''appId'' = JUndefined \<or> get_prop (req_body req) ''type'' = JUndefined) \<longrightarrow>
      sendNotification env req w =
        (\<lparr> res_status = 400, res_json = [(''error'', JStr ''Missing required fields: appId, type'')] \<rparr>, w)) \<and>
   (get_prop (req_body req) ''appId'' = JUndefined \<or> get_prop (req_body req) ''progress'' = JUndefined \<longrightarrow>
      sendDownloadProgress env req w =
        (\<lparr> res_status = 400, res_json = [(''error'', JStr ''Missing required fields'')] \<rparr>, w)) \<and>
   (truthy (get_prop (req_body req) ''appId'') \<and> get_prop (req_body req) ''progress'' = JNum 0 \<longrightarrow>
      res_status (fst (sendDownloadProgress env req w)) \<noteq> 400)"
proof (intro conjI impI)
  assume "req_method req = ''POST'' \<and>
      (get_prop (req_body req) ''appId'' = JUndefined \<or> get_prop (req_body req) ''type'' = JUndefined)"
  then show "sendNotification env req w =
        (\<lparr> res_status = 400, res_json = [(''error'', JStr ''Missing required fields: appId, type'')] \<rparr>, w)"
    by (auto simp: sendNotification_def)
next
  assume "get_prop (req_body req) ''appId'' = JUndefined \<or> get_prop (req_body req) ''progress'' = JUndefined"
  then show "sendDownloadProgress env req w =
        (\<lparr> res_status = 400, res_json = [(''error'', JStr ''Missing required fields'')] \<rparr>, w)"
    by (auto simp: sendDownloadProgress_def Let_def)
next
  assume "truthy (get_prop (req_body req) ''appId'') \<and> get_prop (req_body req) ''progress'' = JNum 0"
  then show "res_status (fst (sendDownloadProgress env req w)) \<noteq> 400"
    by (simp add: sendDownloadProgress_def Let_def messaging_send_def tokens_get_def
        messaging_sendMulticast_def fail500_def split: option.splits sum.splits)
qed

theorem missing_field_400_before_any_call_witness:
  "sendNotification (calm_env (gw_reports [Delivered])) post_no_type (world_of [doc_A] []) =
     (\<lparr> res_status = 400, res_json = [(''error'', JStr ''Missing required fields: appId, type'')] \<rparr>,
      world_of [doc_A] []) \<and>
   sendDownloadProgress (calm_env (gw_reports [Delivered])) post_no_progress (world_of [doc_A] []) =
     (\<lparr> res_status = 400, res_json = [(''error'', JStr ''Missing required fields'')] \<rparr>,
      world_of [doc_A] []) \<and>
   res_status (fst (sendDownloadProgress (calm_env (gw_reports [Delivered])) post_progress_zero
      (world_of [doc_A] []))) \<noteq> 400"
  using missing_field_400_before_any_call [of post_no_type "calm_env (gw_reports [Delivered])" "world_of [doc_A] []"]
    missing_field_400_before_any_call [of post_no_progress "calm_env (gw_reports [Delivered])" "world_of [doc_A] []"]
    missing_field_400_before_any_call [of post_progress_zero "calm_env (gw_reports [Delivered])" "world_of [doc_A] []"]
  by (simp add: post_no_type_def post_no_progress_def post_progress_zero_def get_prop_def)

section \<open>The update trigger with nobody to notify\<close>

text \<open>
  Claim C10. When the version changed, the store is read and no document carries a truthy
  token, \<^verbatim>\<open>notifyOnAppUpdate\<close> returns nothing without throwing: it writes two console lines
  around the read of the collection, calls no gateway and appends no entry to
  \<^verbatim>\<open>notification_logs\<close>. In the same world every valid POST to \<^verbatim>\<open>sendNotification\<close> is
  answered 404.
\<close>

theorem update_with_no_tokens_returns_quietly:
  assumes "\<not> strict_eq (get_prop (change_before chg) ''version'') (get_prop (change_after chg) ''version'')"
    and "tokens_get_fault env = None"
    and "collect_tokens (notification_tokens w) = []"
  shows "fst (notifyOnAppUpdate env chg appId w) = Inr None \<and>
         trace (snd (notifyOnAppUpdate env chg appId w)) =
           trace w @ [ConsoleLog (''App '' @ appId @ '' updated from ''
                        @ toString (get_prop (change_before chg) ''version'') @ '' to ''
                        @ toString (get_prop (change_after chg) ''version'')),
                      TokensGet,
                      ConsoleLog ''No tokens to notify''] \<and>
         gateway_calls (snd (notifyOnAppUpdate env chg appId w)) = gateway_calls w \<and>
         log_adds (snd (notifyOnAppUpdate env chg appId w)) = log_adds w \<and>
         notification_logs (snd (notifyOnAppUpdate env chg appId w)) = notification_logs w \<and>
         (\<forall>req. req_method req = ''POST'' \<and> truthy (get_prop (req_body req) ''appId'') \<and>
                truthy (get_prop (req_body req) ''type'') \<longrightarrow>
                res_status (fst (sendNotification env req w)) = 404)"
  using assms
  by (simp add: notifyOnAppUpdate_def sendNotification_def tokens_get_def gateway_calls_def log_adds_def Let_def)

theorem update_with_no_tokens_returns_quietly_witness:
  "fst (notifyOnAppUpdate (calm_env (gw_reports [])) version_change ''app1'' (world_of [doc_blank] [])) = Inr None \<and>
   trace (snd (notifyOnAppUpdate (calm_env (gw_reports [])) version_change ''app1'' (world_of [doc_blank] []))) =
     [ConsoleLog ''App app1 updated from 1.0 to 1.1'', TokensGet, ConsoleLog ''No tokens to notify''] \<and>
   res_status (fst (sendNotification (calm_env (gw_reports [])) post_update (world_of [doc_blank] []))) = 404"
  using update_with_no_tokens_returns_quietly [of version_change "calm_env (gw_reports [])"
      "world_of [doc_blank] []" "''app1''"]
  by (simp add: version_change_def calm_env_def world_of_def doc_blank_def post_update_def get_prop_def)

section \<open>The scheduled cleanup\<close>

lemma string_of_nat_zero: "string_of_nat 0 = ''0''"
  by (simp add: string_of_nat_digit digit_char_def)

lemma batch_all_eq: "batch_all ds (batch, n) = (batch @ map doc_id ds, n + length ds)"
  by (induction ds arbitrary: batch n) auto

lemma no_expired_left:
  "filter (older_than c) (filter (\<lambda>d. doc_id d \<notin> set (map doc_id (filter (older_than c) ds))) ds) = []"
  by (auto simp: filter_empty_conv)

text \<open>
  Claim C9. When the store answers, \<^verbatim>\<open>cleanupTokens\<close> reports the number of documents whose
  timestamp is older than the cutoff of 90 days and leaves no such document; run again with
  the same clock and no registration in between, it reports \<open>Cleaned up 0 tokens\<close> and
  leaves the store as it found it. The job reads the timestamps only: no delivery outcome is
  among its inputs.
\<close>

theorem cleanup_twice_deletes_nothing:
  assumes "expired_query_fault env = None"
    and "batch_commit_fault env = None"
  shows "fst (cleanupTokens env w) =
           Inr \<lparr> cr_message = ''Cleaned up ''
                    @ string_of_nat (length (filter (older_than (now env - ninety_days_ms)) (notification_tokens w)))
                    @ '' tokens'',
                  cr_timestamp = now env \<rparr> \<and>
         (\<forall>d \<in> set (notification_tokens (snd (cleanupTokens env w))). \<not> older_than (now env - ninety_days_ms) d) \<and>
         fst (cleanupTokens env (snd (cleanupTokens env w))) =
           Inr \<lparr> cr_message = ''Cleaned up 0 tokens'', cr_timestamp = now env \<rparr> \<and>
         notification_tokens (snd (cleanupTokens env (snd (cleanupTokens env w)))) =
           notification_tokens (snd (cleanupTokens env w))"
proof -
  let ?c = "now env - ninety_days_ms"
  let ?old = "filter (older_than ?c) (notification_tokens w)"
  let ?w1 = "snd (cleanupTokens env w)"
  have first: "fst (cleanupTokens env w) =
           Inr \<lparr> cr_message = ''Cleaned up '' @ string_of_nat (length ?old) @ '' tokens'',
                  cr_timestamp = now env \<rparr>"
    using assms
    by (simp add: cleanupTokens_def tokens_where_older_def batch_commit_def batch_all_eq Let_def)
  have w1: "notification_tokens ?w1 =
      filter (\<lambda>d. doc_id d \<notin> set (map doc_id ?old)) (notification_tokens w)"
    using assms
    by (simp add: cleanupTokens_def tokens_where_older_def batch_commit_def batch_all_eq Let_def)
  have none: "filter (older_than ?c) (notification_tokens ?w1) = []"
    unfolding w1 by (rule no_expired_left)
  then have young: "\<forall>d \<in> set (notification_tokens ?w1). \<not> older_than ?c d"
    by (simp add: filter_empty_conv)
  have second: "fst (cleanupTokens env ?w1) =
           Inr \<lparr> cr_message = ''Cleaned up 0 tokens'', cr_timestamp = now env \<rparr>"
    using assms none
    by (simp add: cleanupTokens_def [of env ?w1] tokens_where_older_def batch_commit_def
        string_of_nat_zero Let_def)
  have same: "notification_tokens (snd (cleanupTokens env ?w1)) = notification_tokens ?w1"
    using assms none
    by (simp add: cleanupTokens_def [of env ?w1] tokens_where_older_def batch_commit_def Let_def)
  from first young second same show ?thesis by blast
qed

theorem cleanup_twice_deletes_nothing_witness:
  "notification_tokens (snd (cleanupTokens (calm_env (gw_reports [])) (world_of [doc_A, doc_old] []))) = [doc_A] \<and>
   fst (cleanupTokens (calm_env (gw_reports []))
          (snd (cleanupTokens (calm_env (gw_reports [])) (world_of [doc_A, doc_old] [])))) =
     Inr \<lparr> cr_message = ''Cleaned up 0 tokens'', cr_timestamp = 1700000000000 \<rparr>"
proof -
  have first: "notification_tokens (snd (cleanupTokens (calm_env (gw_reports [])) (world_of [doc_A, doc_old] []))) = [doc_A]"
    by (simp add: cleanupTokens_def tokens_where_older_def batch_commit_def older_than_def
        ninety_days_ms_def calm_env_def world_of_def doc_A_def doc_old_def Let_def)
  have "now (calm_env (gw_reports [])) = 1700000000000" by (simp add: calm_env_def)
  with cleanup_twice_deletes_nothing [of "calm_env (gw_reports [])" "world_of [doc_A, doc_old] []"] first
  show ?thesis by (simp add: calm_env_def)
qed

section \<open>The success rate of the statistics\<close>

subsection \<open>Rounding to a double\<close>

lemma round_even_upper: "of_int (round_even y) \<le> y + 1 / 2"
  unfolding round_even_def Let_def by (auto simp: not_less) linarith+

lemma round_even_lower: "y - 1 / 2 \<le> of_int (round_even y)"
  unfolding round_even_def Let_def by (auto simp: not_less) linarith+

lemma round_even_of_int [simp]: "round_even (of_int k) = k"
  by (simp add: round_even_def)

lemma round_even_ge: "of_int k \<le> y \<Longrightarrow> k \<le> round_even y"
proof -
  assume "of_int k \<le> y"
  then have "(of_int k :: rat) - 1 / 2 \<le> of_int (round_even y)"
    using round_even_lower [of y] by linarith
  then have "(of_int k :: rat) < of_int (round_even y) + 1" by linarith
  then have "(of_int k :: rat) < of_int (round_even y + 1)" by simp
  then have "k < round_even y + 1" by (simp only: of_int_less_iff)
  then show ?thesis by simp
qed

lemma pow2_pos [simp]: "0 < (2::rat) powi e"
  by (simp add: power_int_def)

lemma int_powi_bounds:
  assumes "0 < p"
  shows "(2::rat) powi (bitlen p - 1) \<le> of_int p" and "of_int p < (2::rat) powi bitlen p"
proof -
  from bitlen_bounds [OF assms] have lo: "2 ^ nat (bitlen p - 1) \<le> p" and hi: "p < 2 ^ nat (bitlen p)"
    by simp_all
  have pos: "1 \<le> bitlen p" using assms by (simp add: bitlen_alt_def)
  have "(2::rat) powi (bitlen p - 1) = 2 ^ nat (bitlen p - 1)"
    using pos by (simp add: power_int_def)
  also have "\<dots> = of_int (2 ^ nat (bitlen p - 1))" by simp
  also have "\<dots> \<le> of_int p" using lo by (simp only: of_int_le_iff)
  finally show "(2::rat) powi (bitlen p - 1) \<le> of_int p" .
  have "(of_int p :: rat) < of_int (2 ^ nat (bitlen p))" using hi by (simp only: of_int_less_iff)
  also have "\<dots> = 2 powi bitlen p" using pos by (simp add: power_int_def)
  finally show "of_int p < (2::rat) powi bitlen p" .
qed

lemma binade_bounds:
  assumes "0 < x"
  shows "2 powi binade x \<le> x" and "x < 2 powi (binade x + 1)"
proof -
  obtain p q where pq: "quotient_of x = (p, q)" by (cases "quotient_of x")
  have q: "0 < q" using quotient_of_denom_pos [OF pq] .
  have x: "x = of_int p / of_int q" using quotient_of_div [OF pq] .
  have p: "0 < p" using assms q unfolding x by (simp add: zero_less_divide_iff)
  let ?d = "bitlen p - bitlen q"
  note P = int_powi_bounds [OF p] and Q = int_powi_bounds [OF q]
  have qpos: "(0::rat) < of_int q" using q by simp
  have "x < 2 powi bitlen p / 2 powi (bitlen q - 1)"
    unfolding x using P(2) Q(1) qpos
    by (intro frac_less) (simp_all add: less_imp_le p)
  also have "\<dots> = 2 powi (?d + 1)"
    by (simp add: power_int_diff [symmetric] algebra_simps)
  finally have hi: "x < 2 powi (?d + 1)" .
  have "2 powi (bitlen p - 1) / 2 powi bitlen q \<le> x"
    unfolding x using P(1) Q(2) qpos
    by (intro frac_le) (simp_all add: less_imp_le p)
  moreover have "(2::rat) powi (bitlen p - 1) / 2 powi bitlen q = 2 powi (?d - 1)"
    by (simp add: power_int_diff [symmetric] algebra_simps)
  ultimately have lo: "2 powi (?d - 1) \<le> x" by simp
  show "2 powi binade x \<le> x"
    using lo by (simp add: binade_def pq Let_def)
  show "x < 2 powi (binade x + 1)"
    using hi by (auto simp: binade_def pq Let_def not_le)
qed


lemma binade_ge:
  assumes "2 powi k \<le> x"
  shows "k \<le> binade x"
proof (rule ccontr)
  assume "\<not> k \<le> binade x"
  then have "binade x + 1 \<le> k" by simp
  then have "(2::rat) powi (binade x + 1) \<le> 2 powi k"
    by (intro power_int_increasing) simp_all
  moreover have "0 < x" using assms pow2_pos [of k] by linarith
  ultimately show False using binade_bounds(2) [of x] assms by linarith
qed

lemma binade_less:
  assumes "0 < x" and "x < 2 powi k"
  shows "binade x < k"
proof (rule ccontr)
  assume "\<not> binade x < k"
  then have "(2::rat) powi k \<le> 2 powi binade x"
    by (intro power_int_increasing) simp_all
  then show False using binade_bounds(1) [OF assms(1)] assms(2) by linarith
qed

lemma to_double_error:
  assumes "0 < x"
  defines "e \<equiv> max (binade x) (- 1022) - 52"
  shows "to_double x = Infinity \<or>
         (\<exists>v. to_double x = Finite v \<and> 0 \<le> v \<and> \<bar>v - x\<bar> \<le> 2 powi e / 2)"
proof -
  let ?y = "x / 2 powi e"
  let ?v = "of_int (round_even ?y) * (2::rat) powi e"
  have td: "to_double x = (if overflow_threshold \<le> ?v then Infinity else Finite ?v)"
    using assms(1) by (simp add: to_double_def Let_def e_def)
  have "0 \<le> ?y" using assms(1) by (simp add: less_imp_le)
  then have "0 \<le> round_even ?y" using round_even_ge [of 0 ?y] by simp
  then have nonneg: "0 \<le> ?v" by simp
  have "\<bar>of_int (round_even ?y) - ?y\<bar> \<le> 1 / 2"
    using round_even_upper [of ?y] round_even_lower [of ?y] by linarith
  then have "\<bar>of_int (round_even ?y) - ?y\<bar> * 2 powi e \<le> 1 / 2 * 2 powi e"
    by (intro mult_right_mono) (simp_all add: less_imp_le)
  moreover have "\<bar>of_int (round_even ?y) - ?y\<bar> * 2 powi e = \<bar>?v - x\<bar>"
  proof -
    have "\<bar>of_int (round_even ?y) - ?y\<bar> * 2 powi e = \<bar>(of_int (round_even ?y) - ?y) * 2 powi e\<bar>"
      by (simp add: abs_mult)
    also have "(of_int (round_even ?y) - ?y) * 2 powi e = ?v - x"
      by (simp add: left_diff_distrib)
    finally show ?thesis .
  qed
  ultimately have "\<bar>?v - x\<bar> \<le> 2 powi e / 2" by simp
  with nonneg td show ?thesis by auto
qed

lemma to_double_accurate:
  assumes "2 powi (- 1022) \<le> x"
  shows "to_double x = Infinity \<or>
         (\<exists>v. to_double x = Finite v \<and> 0 \<le> v \<and> \<bar>v - x\<bar> \<le> x / 2 ^ 53)"
proof -
  have pos: "0 < x" using assms pow2_pos [of "- 1022"] by linarith
  have b: "- 1022 \<le> binade x" using binade_ge [OF assms] .
  then have e: "max (binade x) (- 1022) - 52 = binade x - 52" by simp
  have "(2::rat) powi (binade x - 52) / 2 = 2 powi binade x / 2 ^ 53"
    by (simp add: power_int_diff)
  also have "\<dots> \<le> x / 2 ^ 53"
    using binade_bounds(1) [OF pos] by (simp add: divide_right_mono)
  finally have "(2::rat) powi (binade x - 52) / 2 \<le> x / 2 ^ 53" .
  with to_double_error [OF pos, unfolded e] show ?thesis by fastforce
qed

lemma to_double_crude:
  assumes "0 \<le> x" and "x \<le> 2 ^ 1000"
  shows "\<exists>v. to_double x = Finite v \<and> 0 \<le> v \<and> v \<le> 2 * x + 1"
proof (cases "x = 0")
  case True
  then show ?thesis by (simp add: to_double_def)
next
  case False
  with assms(1) have pos: "0 < x" by simp
  let ?e = "max (binade x) (- 1022) - 52"
  have half: "(2::rat) powi ?e / 2 \<le> x + 1"
  proof (cases "- 1022 \<le> binade x")
    case True
    then have "(2::rat) powi ?e = 2 powi binade x / 2 ^ 52"
      by (simp add: power_int_diff max_def)
    also have "\<dots> \<le> 2 powi binade x" by (simp add: divide_le_eq)
    also have "\<dots> \<le> x" using binade_bounds(1) [OF pos] .
    finally show ?thesis using pos by linarith
  next
    case False
    then have "(2::rat) powi ?e = 2 powi (- 1074)" by (simp add: max_def)
    also have "\<dots> \<le> 2 powi 0" by (intro power_int_increasing) simp_all
    finally show ?thesis using pos by simp
  qed
  from to_double_error [OF pos] show ?thesis
  proof
    assume inf: "to_double x = Infinity"
    let ?v = "of_int (round_even (x / 2 powi ?e)) * (2::rat) powi ?e"
    have "?v \<le> (x / 2 powi ?e + 1 / 2) * 2 powi ?e"
      using round_even_upper [of "x / 2 powi ?e"]
      by (intro mult_right_mono) (simp_all add: less_imp_le)
    also have "\<dots> = x + 2 powi ?e / 2" by (simp add: distrib_right)
    also have "\<dots> \<le> 2 * x + 1" using half by linarith
    also have "\<dots> \<le> 2 * 2 ^ 1000 + 1" using assms(2) by linarith
    also have "\<dots> < overflow_threshold" by (simp add: overflow_threshold_def)
    finally have "\<not> overflow_threshold \<le> ?v" by simp
    with pos have "to_double x = Finite ?v" by (simp add: to_double_def Let_def)
    with inf show ?thesis by simp
  next
    assume "\<exists>v. to_double x = Finite v \<and> 0 \<le> v \<and> \<bar>v - x\<bar> \<le> 2 powi ?e / 2"
    then obtain v where v: "to_double x = Finite v" "0 \<le> v" "\<bar>v - x\<bar> \<le> 2 powi ?e / 2" by blast
    then have "v \<le> 2 * x + 1" using half by linarith
    with v show ?thesis by blast
  qed
qed

lemma to_double_ge1:
  assumes "1 \<le> x"
  shows "to_double x = Infinity \<or> (\<exists>v. to_double x = Finite v \<and> 1 \<le> v)"
proof -
  have pos: "0 < x" using assms by simp
  have "(2::rat) powi 0 \<le> x" using assms by simp
  then have b: "0 \<le> binade x" by (rule binade_ge)
  let ?e = "binade x - 52"
  let ?y = "x / 2 powi ?e"
  let ?v = "of_int (round_even ?y) * (2::rat) powi ?e"
  have e: "max (binade x) (- 1022) - 52 = ?e" using b by simp
  have td: "to_double x = (if overflow_threshold \<le> ?v then Infinity else Finite ?v)"
    using pos by (simp add: to_double_def Let_def e)
  have "(2::rat) powi binade x / 2 powi ?e \<le> ?y"
    using binade_bounds(1) [OF pos] by (simp add: divide_right_mono less_imp_le)
  moreover have "(2::rat) powi binade x / 2 powi ?e = of_int (2 ^ 52)"
    by (simp add: power_int_diff)
  ultimately have "(2 ^ 52 :: int) \<le> round_even ?y"
    by (intro round_even_ge) simp
  then have "(of_int (2 ^ 52) :: rat) \<le> of_int (round_even ?y)"
    by (simp only: of_int_le_iff)
  then have "of_int (2 ^ 52) * 2 powi ?e \<le> ?v"
    by (intro mult_right_mono) (simp_all add: less_imp_le)
  moreover have "(of_int (2 ^ 52) :: rat) * 2 powi ?e = 2 powi binade x"
    by (simp add: power_int_diff)
  moreover have "(1::rat) \<le> 2 powi binade x"
    using b by (simp add: power_int_def)
  ultimately have "1 \<le> ?v" by linarith
  with td show ?thesis by auto
qed

text \<open>A number of at most 53 bits over a power of two down to \<open>2\<^sup>-\<^sup>1\<^sup>0\<^sup>7\<^sup>4\<close> is a double.\<close>

lemma to_double_dyadic:
  assumes "m < 2 ^ 53" and "k \<le> 1074"
  shows "to_double (of_nat m / 2 ^ k) = Finite (of_nat m / 2 ^ k)"
proof (cases "m = 0")
  case True
  then show ?thesis by (simp add: to_double_def)
next
  case False
  define x where "x = (of_nat m / 2 ^ k :: rat)"
  have pos: "0 < x" using False by (simp add: x_def)
  have "(of_nat m :: rat) < of_nat (2 ^ 53)" using assms(1) by (simp only: of_nat_less_iff)
  then have m_hi: "(of_nat m :: rat) < 2 ^ 53" by simp
  have "x < 2 ^ 53 / 2 ^ k" unfolding x_def using m_hi by (simp add: divide_strict_right_mono)
  also have "(2::rat) ^ 53 / 2 ^ k = 2 powi (53 - int k)"
    by (simp add: power_int_diff)
  finally have "binade x < 53 - int k" by (rule binade_less [OF pos])
  define e where "e = max (binade x) (- 1022) - 52"
  have e_le: "e \<le> - int k"
    using \<open>binade x < 53 - int k\<close> assms(2) by (simp add: e_def max_def)
  define j where "j = nat (- int k - e)"
  have e_eq: "e = - int (k + j)" using e_le by (simp add: j_def)
  have scale: "(2::rat) powi e = 1 / 2 ^ (k + j)"
    unfolding e_eq by (simp only: power_int_minus_divide power_int_of_nat)
  have y: "x / 2 powi e = of_int (int m * 2 ^ j)"
    unfolding scale x_def by (simp add: power_add)
  have v: "of_int (round_even (x / 2 powi e)) * (2::rat) powi e = x"
    unfolding y round_even_of_int unfolding scale x_def by (simp add: power_add)
  have "x \<le> of_nat m" unfolding x_def by (simp add: divide_le_eq mult_le_cancel_left1)
  moreover have "(2::rat) ^ 53 \<le> 2 ^ 1024" by (intro power_increasing) simp_all
  ultimately have "x < overflow_threshold"
    using m_hi by (simp add: overflow_threshold_def)
  then show ?thesis
    using pos unfolding x_def [symmetric] by (simp add: to_double_def Let_def e_def [symmetric] v)
qed

lemma to_double_nat_exact:
  assumes "n < 2 ^ 53"
  shows "to_double (of_nat n) = Finite (of_nat n)"
  using to_double_dyadic [OF assms, of 0] by simp

subsection \<open>The totals and the printed rate\<close>

lemma tiny_is_normal:
  assumes "1 / 2 ^ 60 \<le> x"
  shows "2 powi (- 1022) \<le> (x::rat)"
proof -
  have "(2::rat) powi (- 1022) \<le> 2 powi (- 60)"
    by (intro power_int_increasing) simp_all
  also have "\<dots> = 1 / 2 ^ 60" by (simp add: power_int_minus_divide)
  finally show ?thesis using assms by linarith
qed

lemma to_double_close:
  assumes "1 / 2 ^ 60 \<le> x" and "x \<le> 2 ^ 1000"
  shows "\<exists>v. to_double x = Finite v \<and> 0 \<le> v \<and> \<bar>v - x\<bar> \<le> x / 2 ^ 53"
proof -
  have "0 \<le> x" using assms(1) by (simp add: order_trans [rotated])
  from to_double_crude [OF this assms(2)] obtain v where v: "to_double x = Finite v" by blast
  from to_double_accurate [OF tiny_is_normal [OF assms(1)]] v show ?thesis by auto
qed

lemma follows_or_zero: "follows (or_zero c) (count_of c)"
proof (cases c)
  case None
  then show ?thesis by (simp add: follows_def or_zero_def count_of_def)
next
  case (Some n)
  have "to_double (of_nat n) = Infinity \<or> (\<exists>v. to_double (of_nat n) = Finite v \<and> 1 \<le> v)" if "0 < n"
    using that by (intro to_double_ge1) (simp add: Suc_le_eq)
  moreover have "to_double (of_nat n) = Finite (of_nat n)" if "n < 2 ^ 53"
    using that by (rule to_double_nat_exact)
  moreover have "to_double (of_nat 0) = Finite 0" by (simp add: to_double_def)
  ultimately show ?thesis
    using Some by (auto simp: follows_def or_zero_def count_of_def)
qed

lemma follows_dadd:
  assumes "follows a n" and "follows b m"
  shows "follows (dadd a b) (n + m)"
proof -
  have exact: "dadd a b = Finite (of_nat (n + m))" if "n + m < 2 ^ 53"
  proof -
    from that have "n < 2 ^ 53" "m < 2 ^ 53" by simp_all
    with assms have "a = Finite (of_nat n)" "b = Finite (of_nat m)" by (simp_all add: follows_def)
    then have "dadd a b = to_double (of_nat (n + m))" by simp
    with that show ?thesis by (simp only: to_double_nat_exact)
  qed
  have zero: "dadd a b = Finite 0" if "n + m = 0"
    using exact that by simp
  have big: "dadd a b = Infinity \<or> (\<exists>v. dadd a b = Finite v \<and> 1 \<le> v)" if "0 < n + m"
  proof -
    have shape_a: "a = Infinity \<or> (\<exists>v. a = Finite v \<and> 0 \<le> v \<and> (0 < n \<longrightarrow> 1 \<le> v))"
      using assms(1) by (cases "n = 0") (auto simp: follows_def)
    have shape_b: "b = Infinity \<or> (\<exists>v. b = Finite v \<and> 0 \<le> v \<and> (0 < m \<longrightarrow> 1 \<le> v))"
      using assms(2) by (cases "m = 0") (auto simp: follows_def)
    show ?thesis
    proof (cases "a = Infinity \<or> b = Infinity")
      case True
      with shape_a shape_b show ?thesis by auto
    next
      case False
      with shape_a shape_b obtain x y where
        xy: "a = Finite x" "b = Finite y" "0 \<le> x" "0 \<le> y" "0 < n \<longrightarrow> 1 \<le> x" "0 < m \<longrightarrow> 1 \<le> y"
        by blast
      with that have "1 \<le> x + y" by (cases "0 < n") auto
      from to_double_ge1 [OF this] xy(1,2) show ?thesis by simp
    qed
  qed
  from exact zero big show ?thesis unfolding follows_def by blast
qed

lemma sum_logs_follows:
  assumes "follows a n" and "follows b m"
  shows "follows (fst (sum_logs ls (a, b))) (n + sum_list (map (\<lambda>l. count_of (sentCount l)) ls)) \<and>
         follows (snd (sum_logs ls (a, b))) (m + sum_list (map (\<lambda>l. count_of (log_failureCount l)) ls))"
  using assms
proof (induction ls arbitrary: a b n m)
  case Nil
  then show ?case by simp
next
  case (Cons l ls)
  have a': "follows (dadd a (or_zero (sentCount l))) (n + count_of (sentCount l))"
    by (rule follows_dadd [OF Cons.prems(1) follows_or_zero])
  have b': "follows (dadd b (or_zero (log_failureCount l))) (m + count_of (log_failureCount l))"
    by (rule follows_dadd [OF Cons.prems(2) follows_or_zero])
  from Cons.IH [OF a' b'] show ?case by (simp add: add.assoc)
qed

lemma follows_zero: "follows (Finite 0) 0"
  by (simp add: follows_def)

lemma window_totals_follow:
  "follows (fst (window_totals env w)) (sent_in_window env w)"
  "follows (snd (window_totals env w)) (failed_in_window env w)"
  using sum_logs_follows [OF follows_zero follows_zero, of "trailing_logs env w"]
  by (simp_all add: window_totals_def sent_in_window_def failed_in_window_def)

lemma follows_dpos: "follows d n \<Longrightarrow> dpos d \<longleftrightarrow> 0 < n"
  by (cases "n = 0") (auto simp: follows_def)

lemma toFixed2_not_0: "toFixed2 d \<noteq> ''0''"
  by (cases d) (simp_all add: Let_def two_digits_def)

text \<open>
  With safe totals the rate is printed from the double nearest to 100 times the double
  nearest to the exact quotient; the two roundings move it by less than \<open>10\<^sup>-\<^sup>1\<^sup>2\<close>.
\<close>

lemma rate_digits:
  assumes "0 < s" and "s + f < 2 ^ 53"
  shows "\<exists>h\<le>10000.
           toFixed2 (dmul (ddiv (Finite (of_nat s)) (Finite (of_nat (s + f)))) (Finite 100)) =
             string_of_nat (h div 100) @ ''.'' @ two_digits h \<and>
           \<bar>of_nat h / 100 - 100 * of_nat s / of_nat (s + f)\<bar> \<le> (1 / 200 + 1 / 10 ^ 12 :: rat)"
proof -
  define S T q0 where "S = (of_nat s :: rat)" and "T = (of_nat (s + f) :: rat)" and "q0 = S / T"
  have s1: "1 \<le> S" using assms(1) by (simp add: S_def Suc_le_eq)
  have t_pos: "0 < T" using assms(1) by (simp add: T_def)
  have "T < of_nat (2 ^ 53)" unfolding T_def using assms(2) by (simp only: of_nat_less_iff)
  then have t_hi: "T < 2 ^ 53" by simp
  have st: "S \<le> T" by (simp add: S_def T_def)
  have q0_hi: "q0 \<le> 1" using st t_pos by (simp add: q0_def divide_le_eq)
  have "1 / 2 ^ 53 \<le> 1 / T" using t_hi t_pos by (intro divide_left_mono) simp_all
  also have "1 / T \<le> q0" unfolding q0_def using s1 t_pos by (intro divide_right_mono) simp_all
  finally have q0_lo: "1 / 2 ^ 53 \<le> q0" .
  define u where "u = (1 / 2 ^ 53 :: rat)"
  have u: "0 < u" "u \<le> 1 / 100" "1 / 2 ^ 60 \<le> u / 2" "201 * u \<le> 1 / 10 ^ 12"
    by (simp_all add: u_def)
  have scale: "x / 2 ^ 53 = x * u" for x :: rat by (simp add: u_def)
  have big: "(2::rat) ^ 7 \<le> 2 ^ 1000" by (intro power_increasing) simp_all
  have q0_lo': "u \<le> q0" using q0_lo by (simp add: u_def)
  have "1 / 2 ^ 60 \<le> q0" using q0_lo' u by linarith
  moreover have "q0 \<le> 2 ^ 1000" using q0_hi big by simp
  ultimately obtain q where q: "to_double q0 = Finite q" "0 \<le> q" "\<bar>q - q0\<bar> \<le> q0 * u"
    using to_double_close [of q0] unfolding scale by blast
  have div: "ddiv (Finite S) (Finite T) = Finite q"
    using t_pos q(1) by (simp add: q0_def)
  have q0_pos: "0 \<le> q0" using q0_lo' u by linarith
  have "q0 * u \<le> 1 * u" using q0_hi u(1) by (intro mult_right_mono) simp_all
  with q(3) have q_err: "\<bar>q - q0\<bar> \<le> u" by simp
  have "q0 * u \<le> q0 * (1 / 100)" using q0_pos u(2) by (intro mult_left_mono) simp_all
  with q(3) have q_lo: "q0 * (99 / 100) \<le> q" by linarith
  have q_hi: "q \<le> 1 + u" using q_err q0_hi by linarith
  define p0 where "p0 = q * 100"
  have "1 / 2 ^ 60 \<le> p0" unfolding p0_def using q_lo q0_lo' u by linarith
  moreover have "p0 \<le> 2 ^ 1000"
  proof -
    have "p0 \<le> 2 ^ 7" unfolding p0_def using q_hi u by simp
    with big show ?thesis by linarith
  qed
  ultimately obtain p where p: "to_double p0 = Finite p" "0 \<le> p" "\<bar>p - p0\<bar> \<le> p0 * u"
    using to_double_close [of p0] unfolding scale by blast
  have mul: "dmul (ddiv (Finite S) (Finite T)) (Finite 100) = Finite p"
    using div p(1) by (simp add: p0_def)
  have "p0 \<le> 101" unfolding p0_def using q_hi u by linarith
  then have "p0 * u \<le> 101 * u" using u(1) by (intro mult_right_mono) simp_all
  with p(3) have "\<bar>p - p0\<bar> \<le> 101 * u" by linarith
  with q_err have "\<bar>p - 100 * q0\<bar> \<le> 201 * u" unfolding p0_def by linarith
  with u have p_err: "\<bar>p - 100 * q0\<bar> \<le> 1 / 10 ^ 12" by linarith
  have p_hi: "p \<le> 100 + 1 / 10 ^ 12" using p_err q0_hi by linarith
  define n where "n = \<lfloor>p * 100 + 1 / 2\<rfloor>"
  have n_lo: "p * 100 - 1 / 2 < of_int n" and n_up: "of_int n \<le> p * 100 + 1 / 2"
    unfolding n_def by linarith+
  have n_nonneg: "0 \<le> n" unfolding n_def using p(2) by simp
  have "(of_int n :: rat) < 10001" using n_up p_hi by simp
  then have "(of_int n :: rat) < of_int 10001" by simp
  then have "n < 10001" by (simp only: of_int_less_iff)
  then have h_hi: "nat n \<le> 10000" by simp
  have h_val: "(of_nat (nat n) :: rat) = of_int n" using n_nonneg by simp
  have fmt: "toFixed2 (dmul (ddiv (Finite S) (Finite T)) (Finite 100)) =
             string_of_nat (nat n div 100) @ ''.'' @ two_digits (nat n)"
    unfolding mul by (simp add: n_def Let_def)
  have "\<bar>of_int n / 100 - p\<bar> \<le> (1 / 200 :: rat)" using n_lo n_up by linarith
  with p_err have "\<bar>of_int n / 100 - 100 * q0\<bar> \<le> (1 / 200 + 1 / 10 ^ 12 :: rat)"
    by linarith
  then have "\<bar>of_nat (nat n) / 100 - 100 * S / T\<bar> \<le> (1 / 200 + 1 / 10 ^ 12 :: rat)"
    by (simp add: h_val q0_def)
  with h_hi fmt show ?thesis unfolding S_def T_def by blast
qed

text \<open>
  Whatever the totals, the number handed to \<^verbatim>\<open>toFixed\<close> is NaN or at most 1001: the branch
  of the host for numbers from \<open>10\<^sup>2\<^sup>1\<close> on is never taken.
\<close>

lemma rate_argument_small:
  assumes "follows S n" and "follows F m" and "0 < n"
  shows "dmul (ddiv S (dadd S F)) (Finite 100) = NaN \<or>
         (\<exists>x. dmul (ddiv S (dadd S F)) (Finite 100) = Finite x \<and> 0 \<le> x \<and> x \<le> 1001)"
proof -
  have zero: "dmul (Finite 0) (Finite 100) = Finite 0" by (simp add: to_double_def)
  have shape_S: "S = Infinity \<or> (\<exists>s. S = Finite s \<and> 1 \<le> s)"
    using assms(1,3) by (auto simp: follows_def)
  have shape_F: "F = Infinity \<or> (\<exists>f. F = Finite f \<and> 0 \<le> f)"
    using assms(2) by (cases "m = 0") (auto simp: follows_def)
  show ?thesis
  proof (cases "S = Infinity")
    case True
    with shape_F show ?thesis by auto
  next
    case False
    with shape_S obtain s where s: "S = Finite s" "1 \<le> s" by blast
    show ?thesis
    proof (cases "dadd S F")
      case NaN
      then show ?thesis using s(1) by simp
    next
      case Infinity
      then show ?thesis using s zero by simp
    next
      case (Finite t)
      with s shape_F obtain f where f: "F = Finite f" "0 \<le> f" by auto
      with s Finite have t: "to_double (s + f) = Finite t" by simp
      define X where "X = s + f"
      have t: "to_double X = Finite t" using t by (simp add: X_def)
      have x1: "1 \<le> X" unfolding X_def using s(2) f(2) by linarith
      have "(2::rat) powi (- 1022) \<le> 2 powi 0" by (intro power_int_increasing) simp_all
      then have normal: "2 powi (- 1022) \<le> X" using x1 by simp
      define A where "A = X / 2 ^ 53"
      from to_double_accurate [OF normal] t have err: "\<bar>t - X\<bar> \<le> A" by (simp add: A_def)
      have "X / 2 ^ 53 \<le> X / 2" using x1 by (intro divide_left_mono) simp_all
      then have "2 * A \<le> X" by (simp add: A_def)
      with err have t_lo: "X \<le> 2 * t" by linarith
      then have t_pos: "0 < t" using x1 by linarith
      have "s \<le> 2 * t" using t_lo f(2) unfolding X_def by linarith
      then have q0_hi: "s / t \<le> 2" using t_pos by (simp add: divide_le_eq)
      have q0_lo: "0 \<le> s / t" using s(2) t_pos by simp
      have big: "(2::rat) ^ 10 \<le> 2 ^ 1000" by (intro power_increasing) simp_all
      have "s / t \<le> 2 ^ 1000" using q0_hi big by simp
      from to_double_crude [OF q0_lo this] obtain q where
        q: "to_double (s / t) = Finite q" "0 \<le> q" "q \<le> 2 * (s / t) + 1" by blast
      have q_hi: "q \<le> 5" using q(3) q0_hi by linarith
      have p0_lo: "0 \<le> q * 100" using q(2) by simp
      have "q * 100 \<le> 2 ^ 10" using q_hi by simp
      with big have "q * 100 \<le> 2 ^ 1000" by linarith
      from to_double_crude [OF p0_lo this] obtain p where
        p: "to_double (q * 100) = Finite p" "0 \<le> p" "p \<le> 2 * (q * 100) + 1" by blast
      have "p \<le> 1001" using p(3) q_hi by linarith
      moreover have "dmul (ddiv S (dadd S F)) (Finite 100) = Finite p"
        using s(1) Finite t_pos q(1) p(1) by simp
      ultimately show ?thesis using p(2) by blast
    qed
  qed
qed

lemma getNotificationStats_answer:
  assumes "req_method req = ''GET''"
    and "tokens_get_fault env = None"
    and "logs_query_fault env = None"
  shows "fst (getNotificationStats env req w) =
     \<lparr> res_status = 200,
       res_json =
         [(''totalTokens'', JNum (int (length (notification_tokens w)))),
          (''successRate'', JStr (successRate (fst (window_totals env w)) (snd (window_totals env w)))),
          (''last30Days'', JObj
             [(''sent'', json_number (fst (window_totals env w))),
              (''failed'', json_number (snd (window_totals env w))),
              (''total'', json_number (divisor env w))])] \<rparr>"
  using assms
  by (simp add: getNotificationStats_def tokens_get_def logs_where_newer_def
      window_totals_def trailing_logs_def divisor_def Let_def split: prod.splits)

text \<open>
  Claim C8, as the code has it. For a GET whose two reads are answered,
  \<^verbatim>\<open>getNotificationStats\<close> answers 200 with the rate computed from the totals of the
  trailing 30 days. The rate is the literal \<open>0%\<close> precisely when the entries of the window
  sent nothing, failures or not. When something was sent, the number divided by is
  positive and the rate has two decimals and a \<open>%\<close> (or is \<open>NaN%\<close>, which takes an
  infinite total). With totals below \<open>2\<^sup>5\<^sup>3\<close>, which the host adds exactly, the rate is
  \<^verbatim>\<open>((sent / (sent + failed)) * 100).toFixed(2) + '%'\<close> in the arithmetic of the host: a number
  of hundredths \<open>h\<close> of at most 10000, printed with a point before its last two digits and
  \<open>%\<close> after them, that lies within half a hundredth (and the \<open>10\<^sup>-\<^sup>1\<^sup>2\<close> of the two
  roundings) of 100 sent / (sent + failed).
\<close>

theorem stats_success_rate:
  assumes "req_method req = ''GET''"
    and "tokens_get_fault env = None"
    and "logs_query_fault env = None"
  shows "res_status (fst (getNotificationStats env req w)) = 200 \<and>
         rate_of (fst (getNotificationStats env req w)) =
           JStr (successRate (fst (window_totals env w)) (snd (window_totals env w))) \<and>
         (rate_of (fst (getNotificationStats env req w)) = JStr ''0%'' \<longleftrightarrow> sent_in_window env w = 0) \<and>
         (0 < sent_in_window env w \<longrightarrow> dpos (divisor env w)) \<and>
         (0 < sent_in_window env w \<longrightarrow>
            rate_of (fst (getNotificationStats env req w)) = JStr ''NaN%'' \<or>
            (\<exists>h. rate_of (fst (getNotificationStats env req w)) =
                   JStr (string_of_nat (h div 100) @ ''.'' @ two_digits h @ ''%''))) \<and>
         (0 < sent_in_window env w \<and> sent_in_window env w + failed_in_window env w < 2 ^ 53 \<longrightarrow>
            window_totals env w =
              (Finite (of_nat (sent_in_window env w)), Finite (of_nat (failed_in_window env w))) \<and>
            rate_of (fst (getNotificationStats env req w)) =
              JStr (toFixed2 (dmul (ddiv (Finite (of_nat (sent_in_window env w)))
                                         (Finite (of_nat (sent_in_window env w + failed_in_window env w))))
                                   (Finite 100)) @ ''%'') \<and>
            (\<exists>h\<le>10000.
               rate_of (fst (getNotificationStats env req w)) =
                 JStr (string_of_nat (h div 100) @ ''.'' @ two_digits h @ ''%'') \<and>
               \<bar>of_nat h / 100
                  - 100 * of_nat (sent_in_window env w)
                      / of_nat (sent_in_window env w + failed_in_window env w)\<bar>
                 \<le> (1 / 200 + 1 / 10 ^ 12 :: rat)))"
proof -
  let ?s = "sent_in_window env w" and ?f = "failed_in_window env w"
  let ?S = "fst (window_totals env w)" and ?F = "snd (window_totals env w)"
  let ?rate = "rate_of (fst (getNotificationStats env req w))"
  note ans = getNotificationStats_answer [OF assms]
  note fS = window_totals_follow(1) [of env w] and fF = window_totals_follow(2) [of env w]
  have status: "res_status (fst (getNotificationStats env req w)) = 200"
    by (simp add: ans)
  have rate: "?rate = JStr (successRate ?S ?F)"
    by (simp add: ans rate_of_def get_prop_def)
  have pos: "dpos ?S \<longleftrightarrow> 0 < ?s" by (rule follows_dpos [OF fS])
  have zero: "?rate = JStr ''0%'' \<longleftrightarrow> ?s = 0"
    using pos toFixed2_not_0 by (auto simp: rate successRate_def)
  have fT: "follows (divisor env w) (?s + ?f)"
    unfolding divisor_def by (rule follows_dadd [OF fS fF])
  have divisor_pos: "dpos (divisor env w)" if "0 < ?s"
    using follows_dpos [OF fT] that by simp
  have shape: "?rate = JStr ''NaN%'' \<or>
      (\<exists>h. ?rate = JStr (string_of_nat (h div 100) @ ''.'' @ two_digits h @ ''%''))"
    if sent: "0 < ?s"
  proof -
    let ?arg = "dmul (ddiv ?S (dadd ?S ?F)) (Finite 100)"
    have r: "?rate = JStr (toFixed2 ?arg @ ''%'')"
      unfolding rate successRate_def using pos sent by simp
    from rate_argument_small [OF fS fF sent] show ?thesis
    proof
      assume "?arg = NaN"
      then show ?thesis by (simp add: r)
    next
      assume "\<exists>x. ?arg = Finite x \<and> 0 \<le> x \<and> x \<le> 1001"
      then obtain x where "?arg = Finite x" by blast
      then have "?rate = JStr (string_of_nat (nat \<lfloor>x * 100 + 1 / 2\<rfloor> div 100) @ ''.''
                    @ two_digits (nat \<lfloor>x * 100 + 1 / 2\<rfloor>) @ ''%'')"
        by (simp add: r Let_def)
      then show ?thesis by blast
    qed
  qed
  have safe: "window_totals env w = (Finite (of_nat ?s), Finite (of_nat ?f)) \<and>
      ?rate = JStr (toFixed2 (dmul (ddiv (Finite (of_nat ?s)) (Finite (of_nat (?s + ?f)))) (Finite 100)) @ ''%'') \<and>
      (\<exists>h\<le>10000. ?rate = JStr (string_of_nat (h div 100) @ ''.'' @ two_digits h @ ''%'') \<and>
         \<bar>of_nat h / 100 - 100 * of_nat ?s / of_nat (?s + ?f)\<bar> \<le> (1 / 200 + 1 / 10 ^ 12 :: rat))"
    if sent: "0 < ?s" and bound: "?s + ?f < 2 ^ 53"
  proof -
    from bound have "?s < 2 ^ 53" "?f < 2 ^ 53" by simp_all
    with fS fF have S: "?S = Finite (of_nat ?s)" and F: "?F = Finite (of_nat ?f)"
      by (simp_all add: follows_def)
    then have totals: "window_totals env w = (Finite (of_nat ?s), Finite (of_nat ?f))"
      by (simp add: prod_eq_iff)
    have T: "dadd ?S ?F = Finite (of_nat (?s + ?f))"
      using fT bound by (simp add: divisor_def follows_def)
    have r: "?rate = JStr (toFixed2 (dmul (ddiv (Finite (of_nat ?s)) (Finite (of_nat (?s + ?f)))) (Finite 100)) @ ''%'')"
      unfolding rate successRate_def using pos sent T S by simp
    from rate_digits [OF sent bound] obtain h where
      h: "h \<le> 10000"
        "toFixed2 (dmul (ddiv (Finite (of_nat ?s)) (Finite (of_nat (?s + ?f)))) (Finite 100)) =
           string_of_nat (h div 100) @ ''.'' @ two_digits h"
        "\<bar>of_nat h / 100 - 100 * of_nat ?s / of_nat (?s + ?f)\<bar> \<le> (1 / 200 + 1 / 10 ^ 12 :: rat)"
      by blast
    have "?rate = JStr (string_of_nat (h div 100) @ ''.'' @ two_digits h @ ''%'')"
      unfolding r h(2) by simp
    with h(1,3) totals r show ?thesis by blast
  qed
  from status rate zero divisor_pos shape safe show ?thesis by blast
qed

theorem stats_success_rate_witness:
  "sent_in_window (calm_env (gw_reports [])) (world_of [doc_A] [log_three_of_four]) = 3 \<and>
   failed_in_window (calm_env (gw_reports [])) (world_of [doc_A] [log_three_of_four]) = 1 \<and>
   rate_of (fst (getNotificationStats (calm_env (gw_reports [])) get_stats
       (world_of [doc_A] [log_three_of_four]))) = JStr ''75.00%''"
proof -
  have s: "sent_in_window (calm_env (gw_reports [])) (world_of [doc_A] [log_three_of_four]) = 3"
    by (simp add: sent_in_window_def trailing_logs_def newer_than_def thirty_days_ms_def
        calm_env_def world_of_def log_three_of_four_def count_of_def)
  have f: "failed_in_window (calm_env (gw_reports [])) (world_of [doc_A] [log_three_of_four]) = 1"
    by (simp add: failed_in_window_def trailing_logs_def newer_than_def thirty_days_ms_def
        calm_env_def world_of_def log_three_of_four_def count_of_def)
  have fmt: "toFixed2 (dmul (to_double (3 / 4)) (Finite 100)) = ''75.00''"
  proof -
    have q: "to_double (3 / 4) = Finite (3 / 4)"
      using to_double_dyadic [of 3 2] by simp
    have p: "to_double 75 = Finite 75"
      using to_double_dyadic [of 75 0] by simp
    have "\<lfloor>(75::rat) * 100 + 1 / 2\<rfloor> = 7500"
      by (rule floor_unique) simp_all
    then have n: "nat \<lfloor>(75::rat) * 100 + 1 / 2\<rfloor> = 7500" by simp
    have "toFixed2 (Finite 75) = ''75.00''"
      unfolding toFixed2.simps Let_def n
      by (simp add: two_digits_def digit_char_def string_of_nat.simps)
    then show ?thesis by (simp add: q p)
  qed
  have hyp: "req_method get_stats = ''GET''"
    "tokens_get_fault (calm_env (gw_reports [])) = None"
    "logs_query_fault (calm_env (gw_reports [])) = None"
    by (simp_all add: get_stats_def calm_env_def)
  from stats_success_rate [where w = "world_of [doc_A] [log_three_of_four]", OF hyp]
  have "0 < sent_in_window (calm_env (gw_reports [])) (world_of [doc_A] [log_three_of_four]) \<and>
        sent_in_window (calm_env (gw_reports [])) (world_of [doc_A] [log_three_of_four])
          + failed_in_window (calm_env (gw_reports [])) (world_of [doc_A] [log_three_of_four]) < 2 ^ 53 \<longrightarrow>
        rate_of (fst (getNotificationStats (calm_env (gw_reports [])) get_stats
            (world_of [doc_A] [log_three_of_four]))) =
          JStr (toFixed2 (dmul (ddiv
              (Finite (of_nat (sent_in_window (calm_env (gw_reports [])) (world_of [doc_A] [log_three_of_four]))))
              (Finite (of_nat (sent_in_window (calm_env (gw_reports [])) (world_of [doc_A] [log_three_of_four])
                 + failed_in_window (calm_env (gw_reports [])) (world_of [doc_A] [log_three_of_four])))))
              (Finite 100)) @ ''%'')"
    by blast
  then have "rate_of (fst (getNotificationStats (calm_env (gw_reports [])) get_stats
       (world_of [doc_A] [log_three_of_four]))) = JStr ''75.00%''"
    unfolding s f by (simp add: fmt)
  with s f show ?thesis by simp
qed

text \<open>
  Claim C8 as stated fails: with one entry of 0 sent and 5 failed in the window the answer
  is \<open>0%\<close> although sent + failed is 5.
\<close>

theorem zero_percent_with_failures_in_window:
  "get_prop (res_json (fst (getNotificationStats (calm_env (gw_reports [])) get_stats
       (world_of [doc_A] [log_all_failed])))) ''successRate'' = JStr ''0%'' \<and>
   sent_in_window (calm_env (gw_reports [])) (world_of [doc_A] [log_all_failed])
     + failed_in_window (calm_env (gw_reports [])) (world_of [doc_A] [log_all_failed]) = 5"
  by (simp add: getNotificationStats_def tokens_get_def logs_where_newer_def successRate_def
      sent_in_window_def failed_in_window_def trailing_logs_def newer_than_def thirty_days_ms_def
      calm_env_def get_stats_def world_of_def log_all_failed_def or_zero_def count_of_def
      to_double_def get_prop_def emit_def Let_def split: prod.splits)

end
